theory Spec2Isabelle
  imports Main
begin

section \<open>Data model\<close>

text \<open>
  The development embeds \<^verbatim>\<open>src/bot/bot.service.ts\<close> (class \<^verbatim>\<open>BotService\<close>, the
  version with the reminder scheduler): the message handler, the callback handler and
  the reminder sweep, together with the three collaborators they call (the Redis
  session store, the Prisma repository and the messaging gateway).

  Conventions of the embedding:
  \<^item> a \<^verbatim>\<open>Date\<close> is its \<^verbatim>\<open>getTime()\<close> value, an \<open>int\<close> of milliseconds;
  \<^item> one run of a handler or of the sweep happens at one instant \<open>now\<close>: every
    \<^verbatim>\<open>new Date()\<close> in it, and every timestamp the repository sets in it
    (\<^verbatim>\<open>@default(now())\<close>, \<^verbatim>\<open>@updatedAt\<close>), is that instant;
  \<^item> a JavaScript string is a \<open>string\<close>; \<^verbatim>\<open>undefined\<close>/\<^verbatim>\<open>null\<close> is \<open>None\<close>;
  \<^item> a JavaScript number that holds an integer is an \<open>int\<close> (exact below \<open>2^53\<close>);
  \<^item> the reply texts are Cyrillic literals of the source; each literal is one constructor
    of \<open>reply\<close>, and a text built from data carries that data;
  \<^item> a handler returns the thrown error (\<open>Inl\<close>) or its value (\<open>Inr\<close>), paired with the
    world it leaves behind, so that what was written before a throw stays written;
  \<^item> every call to a collaborator is appended to \<open>trace\<close> with its outcome; whether
    call number \<open>n\<close> of the run throws is decided by the environment (\<open>fails env n\<close>).
\<close>

type_synonym time = int

text \<open>
  Modelled from the spec: the enumeration \<^verbatim>\<open>USER_STEPS\<close>, which the service imports from
  \<^verbatim>\<open>./bot.types\<close> (not under src/). The spec lists these four steps, and they are the
  four names the service uses. \<open>OTHER_STEP\<close> stands for any other stored value (the
  \<^verbatim>\<open>default\<close> branch of the \<^verbatim>\<open>switch (step)\<close>).
\<close>

datatype USER_STEPS =
    AWAITING_DESCRIPTION
  | AWAITING_USER_ID
  | AWAITING_USER_ID_FOR_TASKS
  | AWAITING_TIME
  | OTHER_STEP

text \<open>
  The \<^verbatim>\<open>taskData\<close> object of a session. It starts as \<^verbatim>\<open>{}\<close>, so every field is
  optional. (\<^verbatim>\<open>taskData.remindInterval\<close> is only ever set on the parsed local copy in
  the \<^verbatim>\<open>AWAITING_TIME\<close> branch and never stored; the model passes the interval along.)
\<close>

record task_data =
  description :: "string option"
  td_firstName :: "string option"
  td_lastName :: "string option"
  td_fileId :: "string option"
  td_fileCaption :: "string option"
  userId :: "string option"

definition empty_taskData :: task_data where
  "empty_taskData =
     \<lparr>description = None, td_firstName = None, td_lastName = None,
      td_fileId = None, td_fileCaption = None, userId = None\<rparr>"

text \<open>The parsed session value \<^verbatim>\<open>{ step, taskData }\<close> kept in Redis under the chat id.\<close>

record session =
  step :: USER_STEPS
  taskData :: task_data

text \<open>
  A row of the user table (\<^verbatim>\<open>model User\<close> of the schema, \<^verbatim>\<open>src/main.ts\<close>, lines 128 to
  137), in the columns the service reads or writes. The generated \<^verbatim>\<open>id\<close> and the two
  timestamps \<^verbatim>\<open>createdAt\<close> and \<^verbatim>\<open>updatedAt\<close> are left out: the service reads none of
  them, and the properties below speak of the user table only where no user call is
  made.
\<close>

record user =
  vkId :: string
  firstName :: string
  lastName :: string

text \<open>
  A row of the task table: the columns of \<^verbatim>\<open>model Task\<close> of the Prisma schema
  (\<^verbatim>\<open>src/main.ts\<close>, lines 139 to 155). The creator's \<^verbatim>\<open>firstName\<close>/\<^verbatim>\<open>lastName\<close>
  columns are \<open>creator_firstName\<close>/\<open>creator_lastName\<close>, \<^verbatim>\<open>id\<close> is \<open>task_id\<close> and
  \<^verbatim>\<open>text\<close> is \<open>task_text\<close>. \<^verbatim>\<open>remindInterval\<close> is an \<^verbatim>\<open>Int\<close>, a signed 32-bit
  integer; \<^verbatim>\<open>updatedAt\<close> is marked \<^verbatim>\<open>@updatedAt\<close>, so Prisma sets it to the current
  instant whenever it creates or updates the row.
\<close>

record task =
  task_id :: string
  userToId :: string
  chatId :: string
  creator_firstName :: string
  creator_lastName :: string
  task_text :: "string option"
  fileCaption :: "string option"
  fileId :: "string option"
  status :: string
  remindInterval :: int
  lastRemind :: time
  createdAt :: time
  updatedAt :: time

text \<open>
  Modelled from the spec: the constant \<^verbatim>\<open>TASK_STATUS.PENDING\<close>, which the service imports
  from \<^verbatim>\<open>./bot.types\<close> (not under src/). The spec's statuses are \<^verbatim>\<open>PENDING\<close>,
  \<^verbatim>\<open>APPROVED\<close> and \<^verbatim>\<open>REJECTED\<close>; the value is the literal the sweep's query and the
  callback handler compare with.
\<close>

definition TASK_STATUS_PENDING :: string where
  "TASK_STATUS_PENDING = ''PENDING''"

text \<open>The \<^verbatim>\<open>data\<close> argument of \<^verbatim>\<open>prisma.task.create\<close>.\<close>

record task_create_data =
  new_userToId :: "string option"
  new_chatId :: string
  new_firstName :: "string option"
  new_lastName :: "string option"
  new_text :: "string option"
  new_fileId :: "string option"
  new_fileCaption :: "string option"
  new_status :: string
  new_remindInterval :: int
  new_lastRemind :: time

subsection \<open>Events\<close>

datatype part = FilePart string "string option" | OtherPart

text \<open>
  A \<^verbatim>\<open>newMessage\<close> event, as far as the handler reads it:
  \<^verbatim>\<open>payload.from.firstName\<close>, \<^verbatim>\<open>payload.from.lastName\<close> and \<^verbatim>\<open>payload.parts\<close>
  (a file part carries \<^verbatim>\<open>payload.fileId\<close> and an optional \<^verbatim>\<open>payload.caption\<close>).
\<close>

record message_event =
  from_firstName :: string
  from_lastName :: string
  parts :: "part list"

text \<open>
  A \<^verbatim>\<open>callbackQuery\<close> event: \<^verbatim>\<open>payload.callbackData\<close>, \<^verbatim>\<open>payload.queryId\<close>,
  \<^verbatim>\<open>payload.message.chat.chatId\<close> and \<^verbatim>\<open>payload.from.userId\<close>.
\<close>

record callback_event =
  callbackData :: string
  queryId :: string
  cb_chatId :: string
  cb_userId :: string

subsection \<open>Replies and buttons\<close>

datatype label =
    L_CreateTask | L_CheckUserTasks | L_WatchTasks | L_WatchStatistics
  | L_Approve | L_Reject

text \<open>A button: label, \<^verbatim>\<open>callbackData\<close>, \<^verbatim>\<open>style\<close>.\<close>

datatype button = Button label string string

text \<open>
  One constructor for each \<^verbatim>\<open>responseText\<close> of the two handlers, in source order, and
  one for the reminder prompt of \<^verbatim>\<open>sendReminderWithButtons\<close>. A task report carries its
  rows (task and the assignee looked up for it); the statistics carry the four counts.
  The lines are those of \<^verbatim>\<open>bot.service.ts\<close>; the texts are given in English.

  \<^item> \<open>R_AskAssignee\<close> (279): send the contact the task is to be assigned to.
  \<^item> \<open>R_BadLink\<close> (288, 330): incorrect link, send a contact from your contacts.
  \<^item> \<open>R_UserNotFound\<close> (299, 341): no user with this userId.
  \<^item> \<open>R_AskInterval\<close> (315): enter the reminder interval in minutes.
  \<^item> \<open>R_AccountCheckError\<close> (320): an error occurred while checking the account, try again.
  \<^item> \<open>R_UserHasNoTasks\<close> (356): the user (first name, last name) has no tasks.
  \<^item> \<open>R_UserTaskReport\<close> (358-370): the last 10 tasks of the user.
  \<^item> \<open>R_TasksFetchError\<close> (377, 621): an error occurred while fetching tasks, try again.
  \<^item> \<open>R_BadInterval\<close> (385): wrong interval format, enter a positive number.
  \<^item> \<open>R_TaskCreated\<close> (408): the task has been created.
  \<^item> \<open>R_TaskCreateError\<close> (411): an error occurred while creating the task, try again.
  \<^item> \<open>R_UnknownCommand\<close> (420, 494, 682): unknown command, use /help.
  \<^item> \<open>R_Welcome\<close> (453): welcome, choose a command.
  \<^item> \<open>R_Help\<close> (485-490): the list of commands.
  \<^item> \<open>R_TaskNotFound\<close> (552): task not found.
  \<^item> \<open>R_TaskApproved\<close> (562), \<open>R_TaskRejected\<close> (563): the task has been approved, rejected.
  \<^item> \<open>R_AlreadyApproved\<close> (565), \<open>R_AlreadyRejected\<close> (567): the task is already approved,
    already rejected.
  \<^item> \<open>R_UnknownStatus\<close> (569): unknown task status.
  \<^item> \<open>R_TaskProcessError\<close> (573): an error occurred while processing the task, try again.
  \<^item> \<open>R_AskDescription\<close> (586): enter the description of the task.
  \<^item> \<open>R_NoOwnTasks\<close> (602): you have created no tasks.
  \<^item> \<open>R_OwnTaskReport\<close> (604-616): the last 10 tasks.
  \<^item> \<open>R_AskContact\<close> (634): send the contact of the user.
  \<^item> \<open>R_Statistics\<close> (666-671): total, approved, rejected, pending.
  \<^item> \<open>R_StatisticsError\<close> (676): an error occurred while fetching the statistics, try again.
  \<^item> \<open>R_ReminderPrompt\<close> (141-149): new task for approval, from (first name, last name),
    the description line when the task has a text, the file line when it has a file
    (the caption, or \<open>None\<close> for the "no description" placeholder).
\<close>

datatype reply =
    R_AskAssignee
  | R_BadLink
  | R_UserNotFound
  | R_AskInterval
  | R_AccountCheckError
  | R_UserHasNoTasks string string
  | R_UserTaskReport string string "(task \<times> user option) list"
  | R_TasksFetchError
  | R_BadInterval
  | R_TaskCreated
  | R_TaskCreateError
  | R_UnknownCommand
  | R_Welcome
  | R_Help
  | R_TaskNotFound
  | R_TaskApproved
  | R_TaskRejected
  | R_AlreadyApproved
  | R_AlreadyRejected
  | R_UnknownStatus
  | R_TaskProcessError
  | R_AskDescription
  | R_NoOwnTasks
  | R_OwnTaskReport "(task \<times> user option) list"
  | R_AskContact
  | R_Statistics nat nat nat nat
  | R_StatisticsError
  | R_ReminderPrompt string string "string option" "string option option"

subsection \<open>Collaborator calls, errors, the world\<close>

datatype task_query =
    PendingBefore time
  | ByAssignee string
  | ByCreatorChat string

datatype count_query =
    CountAll string
  | CountStatus string string

datatype io_call =
    RedisGet string
  | RedisSet string session "nat option"
  | RedisDel string
  | UserFindUnique string
  | UserUpsert string string string
  | TaskFindUnique string
  | TaskFindMany task_query
  | TaskCount count_query
  | TaskCreate task_create_data
  | TaskUpdateStatus string string
  | TaskUpdateLastRemind string time
  | SendText string reply "button list list"
  | SendFile string string reply "button list list"
  | AnswerCallbackQuery string

datatype outcome = Returned | Threw

datatype error =
    StoreError
  | RepositoryError
  | GatewayError
  | TaskMissing string

text \<open>
  The world: the Redis keys (value and the instant the key expires, if any), the two
  tables in insertion order, and the calls made so far, each with its outcome.
\<close>

record world =
  redis :: "string \<rightharpoonup> (session \<times> time option)"
  tasks :: "task list"
  users :: "user list"
  trace :: "(io_call \<times> outcome) list"

text \<open>
  The environment: which calls throw, and the id the repository generates for a row
  created by call number \<open>n\<close>.
\<close>

record env =
  fails :: "nat \<Rightarrow> bool"
  uuid :: "nat \<Rightarrow> string"

definition throws :: "env \<Rightarrow> world \<Rightarrow> bool" where
  "throws e w = fails e (length (trace w))"

definition logged :: "io_call \<Rightarrow> outcome \<Rightarrow> world \<Rightarrow> world" where
  "logged c r w = w\<lparr>trace := trace w @ [(c, r)]\<rparr>"

text \<open>The calls a handler has added to the trace of the world it started from.\<close>

definition new_calls :: "world \<Rightarrow> world \<Rightarrow> (io_call \<times> outcome) list" where
  "new_calls w w' = drop (length (trace w)) (trace w')"

section \<open>JavaScript string functions used by the handlers\<close>

text \<open>
  \<^verbatim>\<open>s.split(sep)\<close> for a one-character separator: the segments between the separators,
  never an empty array (\<^verbatim>\<open>''.split('/')\<close> is \<^verbatim>\<open>['']\<close>).
\<close>

fun js_split :: "char \<Rightarrow> string \<Rightarrow> string list" where
  "js_split sep [] = [[]]"
| "js_split sep (c # cs) =
     (if c = sep then [] # js_split sep cs
      else (case js_split sep cs of
              [] \<Rightarrow> [[c]]
            | seg # segs \<Rightarrow> (c # seg) # segs))"

definition startsWith :: "string \<Rightarrow> string \<Rightarrow> bool" where
  "startsWith s p = (take (length p) s = p)"

definition str_includes :: "string \<Rightarrow> char \<Rightarrow> bool" where
  "str_includes s c = (c \<in> set s)"

text \<open>
  \<^verbatim>\<open>parseInt(text, 10)\<close>: leading white space is skipped, one sign is read, then the
  longest run of decimal digits; with no digit the result is \<^verbatim>\<open>NaN\<close> (\<open>None\<close>). Whatever
  follows the digits is ignored. White space is the part of ECMAScript's
  \<^verbatim>\<open>StrWhiteSpaceChar\<close> that an 8-bit \<open>char\<close> can hold.
\<close>

definition isWhiteSpace :: "char \<Rightarrow> bool" where
  "isWhiteSpace c = ((of_char c :: nat) \<in> {9, 10, 11, 12, 13, 32, 160})"

definition isDigit :: "char \<Rightarrow> bool" where
  "isDigit c = (48 \<le> (of_char c :: nat) \<and> (of_char c :: nat) \<le> 57)"

definition digit_value :: "char \<Rightarrow> int" where
  "digit_value c = int (of_char c) - 48"

definition digits_value :: "string \<Rightarrow> int" where
  "digits_value ds = foldl (\<lambda>acc c. acc * 10 + digit_value c) 0 ds"

definition parseInt :: "string \<Rightarrow> int option" where
  "parseInt s =
     (let t = dropWhile isWhiteSpace s;
          neg = (case t of [] \<Rightarrow> False | c # _ \<Rightarrow> c = CHR ''-'');
          u = (case t of [] \<Rightarrow> [] | c # r \<Rightarrow> if c = CHR ''-'' \<or> c = CHR ''+'' then r else t);
          ds = takeWhile isDigit u
      in if ds = [] then None
         else Some (if neg then - digits_value ds else digits_value ds))"

text \<open>JavaScript truthiness of an optional string: present and not empty.\<close>

definition truthy :: "string option \<Rightarrow> bool" where
  "truthy v = (case v of None \<Rightarrow> False | Some s \<Rightarrow> s \<noteq> [])"

section \<open>The session store (Redis)\<close>

text \<open>A key whose expiry instant has been reached reads as absent.\<close>

definition unexpired :: "time \<Rightarrow> (session \<times> time option) option \<Rightarrow> session option" where
  "unexpired now entry =
     (case entry of
        None \<Rightarrow> None
      | Some (v, None) \<Rightarrow> Some v
      | Some (v, Some t) \<Rightarrow> if t \<le> now then None else Some v)"

definition redis_get ::
  "env \<Rightarrow> time \<Rightarrow> string \<Rightarrow> world \<Rightarrow> (error + session option) \<times> world" where
  "redis_get e now k w =
     (if throws e w then (Inl StoreError, logged (RedisGet k) Threw w)
      else (Inr (unexpired now (redis w k)), logged (RedisGet k) Returned w))"

text \<open>
  \<^verbatim>\<open>redis.set(key, value)\<close> stores with no expiry (\<open>ttl = None\<close>);
  \<^verbatim>\<open>redis.set(key, value, 'EX', n)\<close> stores with an expiry of \<open>n\<close> seconds.
\<close>

definition redis_set ::
  "env \<Rightarrow> time \<Rightarrow> string \<Rightarrow> session \<Rightarrow> nat option \<Rightarrow> world \<Rightarrow> (error + unit) \<times> world" where
  "redis_set e now k v ttl w =
     (if throws e w then (Inl StoreError, logged (RedisSet k v ttl) Threw w)
      else (Inr (),
            (logged (RedisSet k v ttl) Returned w)
              \<lparr>redis := (redis w)(k \<mapsto> (v, map_option (\<lambda>n. now + 1000 * int n) ttl))\<rparr>))"

definition redis_del :: "env \<Rightarrow> string \<Rightarrow> world \<Rightarrow> (error + unit) \<times> world" where
  "redis_del e k w =
     (if throws e w then (Inl StoreError, logged (RedisDel k) Threw w)
      else (Inr (), (logged (RedisDel k) Returned w)\<lparr>redis := (redis w)(k := None)\<rparr>))"

section \<open>The repository (Prisma)\<close>

definition user_findUnique ::
  "env \<Rightarrow> string \<Rightarrow> world \<Rightarrow> (error + user option) \<times> world" where
  "user_findUnique e vk w =
     (if throws e w then (Inl RepositoryError, logged (UserFindUnique vk) Threw w)
      else (Inr (find (\<lambda>u. vkId u = vk) (users w)), logged (UserFindUnique vk) Returned w))"

text \<open>\<^verbatim>\<open>upsert\<close> with \<^verbatim>\<open>update: {}\<close>: an existing row is left as it is.\<close>

definition user_upsert ::
  "env \<Rightarrow> string \<Rightarrow> string \<Rightarrow> string \<Rightarrow> world \<Rightarrow> (error + unit) \<times> world" where
  "user_upsert e vk fn ln w =
     (if throws e w then (Inl RepositoryError, logged (UserUpsert vk fn ln) Threw w)
      else
        (case find (\<lambda>u. vkId u = vk) (users w) of
           Some _ \<Rightarrow> (Inr (), logged (UserUpsert vk fn ln) Returned w)
         | None \<Rightarrow>
             (Inr (),
              (logged (UserUpsert vk fn ln) Returned w)
                \<lparr>users := users w @ [\<lparr>vkId = vk, firstName = fn, lastName = ln\<rparr>]\<rparr>)))"

definition lookup_task :: "string \<Rightarrow> task list \<Rightarrow> task option" where
  "lookup_task i rows = find (\<lambda>t. task_id t = i) rows"

definition task_findUnique ::
  "env \<Rightarrow> string \<Rightarrow> world \<Rightarrow> (error + task option) \<times> world" where
  "task_findUnique e i w =
     (if throws e w then (Inl RepositoryError, logged (TaskFindUnique i) Threw w)
      else (Inr (lookup_task i (tasks w)), logged (TaskFindUnique i) Returned w))"

text \<open>
  The three \<^verbatim>\<open>findMany\<close> queries of the service. The two reports ask for
  \<^verbatim>\<open>orderBy: { createdAt: 'desc' }, take: 10\<close> (rows created at the same instant keep
  their table order here; the source leaves their order to the database).
\<close>

definition newest_first :: "task list \<Rightarrow> task list" where
  "newest_first rows = sort_key (\<lambda>t. - createdAt t) rows"

fun select_tasks :: "task_query \<Rightarrow> task list \<Rightarrow> task list" where
  "select_tasks (PendingBefore now) rows =
     filter (\<lambda>t. status t = ''PENDING'' \<and> lastRemind t < now) rows"
| "select_tasks (ByAssignee u) rows =
     take 10 (newest_first (filter (\<lambda>t. userToId t = u) rows))"
| "select_tasks (ByCreatorChat c) rows =
     take 10 (newest_first (filter (\<lambda>t. chatId t = c) rows))"

definition task_findMany ::
  "env \<Rightarrow> task_query \<Rightarrow> world \<Rightarrow> (error + task list) \<times> world" where
  "task_findMany e q w =
     (if throws e w then (Inl RepositoryError, logged (TaskFindMany q) Threw w)
      else (Inr (select_tasks q (tasks w)), logged (TaskFindMany q) Returned w))"

fun count_tasks :: "count_query \<Rightarrow> task list \<Rightarrow> nat" where
  "count_tasks (CountAll c) rows = length (filter (\<lambda>t. chatId t = c) rows)"
| "count_tasks (CountStatus c st) rows =
     length (filter (\<lambda>t. chatId t = c \<and> status t = st) rows)"

definition task_count ::
  "env \<Rightarrow> count_query \<Rightarrow> world \<Rightarrow> (error + nat) \<times> world" where
  "task_count e q w =
     (if throws e w then (Inl RepositoryError, logged (TaskCount q) Threw w)
      else (Inr (count_tasks q (tasks w)), logged (TaskCount q) Returned w))"

text \<open>
  The row that \<^verbatim>\<open>prisma.task.create\<close> inserts, by \<^verbatim>\<open>model Task\<close> of the schema
  (\<^verbatim>\<open>src/main.ts\<close>, lines 139 to 155). \<^verbatim>\<open>userToId\<close>, \<^verbatim>\<open>firstName\<close> and \<^verbatim>\<open>lastName\<close> are
  required (\<^verbatim>\<open>text\<close>, \<^verbatim>\<open>fileCaption\<close> and \<^verbatim>\<open>fileId\<close> are not), and \<^verbatim>\<open>remindInterval\<close> is
  an \<^verbatim>\<open>Int\<close>: with a required column missing, or an interval outside the signed
  32-bit range, there is no row and the create throws. The id comes from
  \<^verbatim>\<open>@default(uuid())\<close>; \<^verbatim>\<open>createdAt\<close> (\<^verbatim>\<open>@default(now())\<close>) and \<^verbatim>\<open>updatedAt\<close>
  (\<^verbatim>\<open>@updatedAt\<close>) are the instant of the insert.
\<close>

definition fits_Int :: "int \<Rightarrow> bool" where
  "fits_Int n = (- 2147483648 \<le> n \<and> n \<le> 2147483647)"

definition new_row :: "string \<Rightarrow> time \<Rightarrow> task_create_data \<Rightarrow> task option" where
  "new_row i now d =
     (case (new_userToId d, new_firstName d, new_lastName d) of
        (Some u, Some fn, Some ln) \<Rightarrow>
          if fits_Int (new_remindInterval d)
          then Some \<lparr>task_id = i, userToId = u, chatId = new_chatId d,
                     creator_firstName = fn, creator_lastName = ln,
                     task_text = new_text d, fileCaption = new_fileCaption d,
                     fileId = new_fileId d, status = new_status d,
                     remindInterval = new_remindInterval d,
                     lastRemind = new_lastRemind d, createdAt = now, updatedAt = now\<rparr>
          else None
      | _ \<Rightarrow> None)"

text \<open>\<^verbatim>\<open>prisma.task.create\<close>: the id is the table's key (\<^verbatim>\<open>@id\<close>), so an id already in
  the table is refused.\<close>

definition task_create ::
  "env \<Rightarrow> time \<Rightarrow> task_create_data \<Rightarrow> world \<Rightarrow> (error + task) \<times> world" where
  "task_create e now d w =
     (if throws e w then (Inl RepositoryError, logged (TaskCreate d) Threw w)
      else
        (case new_row (uuid e (length (trace w))) now d of
           None \<Rightarrow> (Inl RepositoryError, logged (TaskCreate d) Threw w)
         | Some row \<Rightarrow>
             if lookup_task (task_id row) (tasks w) \<noteq> None
             then (Inl RepositoryError, logged (TaskCreate d) Threw w)
             else (Inr row, (logged (TaskCreate d) Returned w)\<lparr>tasks := tasks w @ [row]\<rparr>)))"

text \<open>
  \<^verbatim>\<open>prisma.task.update({ where: { id }, data })\<close> at instant \<open>now\<close> changes the row with
  that id, sets its \<^verbatim>\<open>updatedAt\<close> to \<open>now\<close> (\<^verbatim>\<open>@updatedAt\<close>), and throws when there is no
  such row.
\<close>

fun update_row :: "string \<Rightarrow> (task \<Rightarrow> task) \<Rightarrow> task list \<Rightarrow> task list" where
  "update_row i f [] = []"
| "update_row i f (t # ts) = (if task_id t = i then f t # ts else t # update_row i f ts)"

definition task_update ::
  "env \<Rightarrow> time \<Rightarrow> io_call \<Rightarrow> string \<Rightarrow> (task \<Rightarrow> task) \<Rightarrow> world
     \<Rightarrow> (error + unit) \<times> world" where
  "task_update e now c i f w =
     (if throws e w \<or> lookup_task i (tasks w) = None
      then (Inl RepositoryError, logged c Threw w)
      else (Inr (),
            (logged c Returned w)
              \<lparr>tasks := update_row i (\<lambda>t. (f t)\<lparr>updatedAt := now\<rparr>) (tasks w)\<rparr>))"

text \<open>\<^verbatim>\<open>data: { status: newStatus }\<close>\<close>

definition task_update_status ::
  "env \<Rightarrow> time \<Rightarrow> string \<Rightarrow> string \<Rightarrow> world \<Rightarrow> (error + unit) \<times> world" where
  "task_update_status e now i st w =
     task_update e now (TaskUpdateStatus i st) i (\<lambda>t. t\<lparr>status := st\<rparr>) w"

text \<open>\<^verbatim>\<open>data: { lastRemind: newLastRemind }\<close>\<close>

definition task_update_lastRemind ::
  "env \<Rightarrow> time \<Rightarrow> string \<Rightarrow> time \<Rightarrow> world \<Rightarrow> (error + unit) \<times> world" where
  "task_update_lastRemind e now i t w =
     task_update e now (TaskUpdateLastRemind i t) i (\<lambda>r. r\<lparr>lastRemind := t\<rparr>) w"

section \<open>The messaging gateway\<close>

definition gateway :: "env \<Rightarrow> io_call \<Rightarrow> world \<Rightarrow> (error + unit) \<times> world" where
  "gateway e c w =
     (if throws e w then (Inl GatewayError, logged c Threw w)
      else (Inr (), logged c Returned w))"

text \<open>\<^verbatim>\<open>POST messages/sendText\<close> with \<^verbatim>\<open>chatId\<close>, \<^verbatim>\<open>text\<close> and \<^verbatim>\<open>inlineKeyboardMarkup\<close> (the
  empty list when the request carries no keyboard).\<close>

definition sendText ::
  "env \<Rightarrow> string \<Rightarrow> reply \<Rightarrow> button list list \<Rightarrow> world \<Rightarrow> (error + unit) \<times> world" where
  "sendText e chat r markup w = gateway e (SendText chat r markup) w"

text \<open>\<^verbatim>\<open>GET messages/sendFile\<close> with \<^verbatim>\<open>chatId\<close>, \<^verbatim>\<open>fileId\<close>, \<^verbatim>\<open>caption\<close> and the keyboard.\<close>

definition sendFile ::
  "env \<Rightarrow> string \<Rightarrow> string \<Rightarrow> reply \<Rightarrow> button list list \<Rightarrow> world \<Rightarrow> (error + unit) \<times> world" where
  "sendFile e chat file r markup w = gateway e (SendFile chat file r markup) w"

definition answerCallbackQuery :: "env \<Rightarrow> string \<Rightarrow> world \<Rightarrow> (error + unit) \<times> world" where
  "answerCallbackQuery e q w = gateway e (AnswerCallbackQuery q) w"

section \<open>The reminder scheduler\<close>

text \<open>\<^verbatim>\<open>sendReminderWithButtons\<close>: the prompt's text, its two buttons, and the send.\<close>

definition reminder_messageText :: "task \<Rightarrow> reply" where
  "reminder_messageText t =
     R_ReminderPrompt (creator_firstName t) (creator_lastName t)
       (if truthy (task_text t) then task_text t else None)
       (if truthy (fileId t)
        then Some (if truthy (fileCaption t) then fileCaption t else None)
        else None)"

definition reminder_keyboard :: "string \<Rightarrow> button list list" where
  "reminder_keyboard taskId =
     [[Button L_Approve (''approve_'' @ taskId) ''primary'',
       Button L_Reject (''reject_'' @ taskId) ''attention'']]"

definition sendReminderWithButtons ::
  "env \<Rightarrow> string \<Rightarrow> string \<Rightarrow> world \<Rightarrow> (error + unit) \<times> world" where
  "sendReminderWithButtons e chat taskId w =
     (case task_findUnique e taskId w of
        (Inl err, w1) \<Rightarrow> (Inl err, w1)
      | (Inr None, w1) \<Rightarrow> (Inl (TaskMissing taskId), w1)
      | (Inr (Some t), w1) \<Rightarrow>
          (case fileId t of
             None \<Rightarrow> sendText e chat (reminder_messageText t) (reminder_keyboard taskId) w1
           | Some f \<Rightarrow>
               if f = []
               then sendText e chat (reminder_messageText t) (reminder_keyboard taskId) w1
               else sendFile e chat f (reminder_messageText t) (reminder_keyboard taskId) w1))"

text \<open>
  The body of the \<^verbatim>\<open>for (const task of tasks)\<close> loop of \<^verbatim>\<open>startReminderChecks\<close>: send,
  then move \<^verbatim>\<open>lastRemind\<close>; an error of either is caught (and logged) inside the loop.
\<close>

definition remind_one :: "env \<Rightarrow> time \<Rightarrow> task \<Rightarrow> world \<Rightarrow> world" where
  "remind_one e now t w =
     (case sendReminderWithButtons e (userToId t) (task_id t) w of
        (Inl err, w1) \<Rightarrow> w1
      | (Inr _, w1) \<Rightarrow>
          snd (task_update_lastRemind e now (task_id t) (now + remindInterval t * 60 * 1000) w1))"

fun remind_each :: "env \<Rightarrow> time \<Rightarrow> task list \<Rightarrow> world \<Rightarrow> world" where
  "remind_each e now [] w = w"
| "remind_each e now (t # ts) w = remind_each e now ts (remind_one e now t w)"

text \<open>One tick of the interval set up by \<^verbatim>\<open>startReminderChecks\<close>, at instant \<open>now\<close>.\<close>

definition reminderCheck :: "env \<Rightarrow> time \<Rightarrow> world \<Rightarrow> world" where
  "reminderCheck e now w =
     (case task_findMany e (PendingBefore now) w of
        (Inl err, w1) \<Rightarrow> w1
      | (Inr ts, w1) \<Rightarrow> remind_each e now ts w1)"

section \<open>The message handler\<close>

text \<open>\<^verbatim>\<open>event.payload.parts?.find(part => part.type === 'file')?.payload\<close>\<close>

fun find_file :: "part list \<Rightarrow> (string \<times> string option) option" where
  "find_file [] = None"
| "find_file (FilePart f c # ps) = Some (f, c)"
| "find_file (OtherPart # ps) = find_file ps"

definition with_file :: "(string \<times> string option) option \<Rightarrow> task_data \<Rightarrow> task_data" where
  "with_file file td =
     (case file of
        None \<Rightarrow> td
      | Some (f, c) \<Rightarrow> td\<lparr>td_fileId := Some f, td_fileCaption := c\<rparr>)"

text \<open>
  The loop that builds a report: one \<^verbatim>\<open>user.findUnique\<close> for each task, stopping at the
  first that throws.
\<close>

fun report_entries ::
  "env \<Rightarrow> task list \<Rightarrow> world \<Rightarrow> (error + (task \<times> user option) list) \<times> world" where
  "report_entries e [] w = (Inr [], w)"
| "report_entries e (t # ts) w =
     (case user_findUnique e (userToId t) w of
        (Inl err, w1) \<Rightarrow> (Inl err, w1)
      | (Inr u, w1) \<Rightarrow>
          (case report_entries e ts w1 of
             (Inl err, w2) \<Rightarrow> (Inl err, w2)
           | (Inr es, w2) \<Rightarrow> (Inr ((t, u) # es), w2)))"

text \<open>\<^verbatim>\<open>urlParts[urlParts.length - 1]\<close> of \<^verbatim>\<open>text.split('/')\<close>.\<close>

definition contact_of :: "string \<Rightarrow> string" where
  "contact_of text = last (js_split CHR ''/'' text)"

definition valid_contact :: "string \<Rightarrow> bool" where
  "valid_contact contactId = (\<not> (contactId = [] \<or> \<not> str_includes contactId CHR ''@''))"

text \<open>The branch \<^verbatim>\<open>case USER_STEPS.AWAITING_DESCRIPTION\<close>.\<close>

definition step_description ::
  "env \<Rightarrow> time \<Rightarrow> string \<Rightarrow> string \<Rightarrow> message_event \<Rightarrow> task_data \<Rightarrow> world
     \<Rightarrow> (error + reply) \<times> world" where
  "step_description e now chat text ev td w =
     (let td' = with_file (find_file (parts ev))
                  (td\<lparr>description := Some text,
                      td_firstName := Some (from_firstName ev),
                      td_lastName := Some (from_lastName ev)\<rparr>)
      in case redis_set e now chat \<lparr>step = AWAITING_USER_ID, taskData = td'\<rparr> (Some 3600) w of
           (Inl err, w1) \<Rightarrow> (Inl err, w1)
         | (Inr _, w1) \<Rightarrow> (Inr R_AskAssignee, w1))"

text \<open>The branch \<^verbatim>\<open>case USER_STEPS.AWAITING_USER_ID\<close>; its \<^verbatim>\<open>try\<close> encloses the lookup and
  the session write.\<close>

definition step_user_id ::
  "env \<Rightarrow> time \<Rightarrow> string \<Rightarrow> string \<Rightarrow> message_event \<Rightarrow> task_data \<Rightarrow> world
     \<Rightarrow> (error + reply) \<times> world" where
  "step_user_id e now chat text ev td w =
     (let contactId = contact_of text in
      if \<not> valid_contact contactId then (Inr R_BadLink, w)
      else
        (case user_findUnique e contactId w of
           (Inl err, w1) \<Rightarrow> (Inr R_AccountCheckError, w1)
         | (Inr None, w1) \<Rightarrow> (Inr R_UserNotFound, w1)
         | (Inr (Some u), w1) \<Rightarrow>
             (let td' = with_file (find_file (parts ev)) (td\<lparr>userId := Some contactId\<rparr>)
              in case redis_set e now chat \<lparr>step = AWAITING_TIME, taskData = td'\<rparr> (Some 3600) w1 of
                   (Inl err, w2) \<Rightarrow> (Inr R_AccountCheckError, w2)
                 | (Inr _, w2) \<Rightarrow> (Inr R_AskInterval, w2))))"

text \<open>The branch \<^verbatim>\<open>case USER_STEPS.AWAITING_USER_ID_FOR_TASKS\<close>; its \<^verbatim>\<open>try\<close> encloses the
  queries and the \<^verbatim>\<open>redis.del\<close>.\<close>

definition step_user_id_for_tasks ::
  "env \<Rightarrow> string \<Rightarrow> string \<Rightarrow> world \<Rightarrow> (error + reply) \<times> world" where
  "step_user_id_for_tasks e chat text w =
     (let contactId = contact_of text in
      if \<not> valid_contact contactId then (Inr R_BadLink, w)
      else
        (case user_findUnique e contactId w of
           (Inl err, w1) \<Rightarrow> (Inr R_TasksFetchError, w1)
         | (Inr None, w1) \<Rightarrow> (Inr R_UserNotFound, w1)
         | (Inr (Some u), w1) \<Rightarrow>
             (case task_findMany e (ByAssignee contactId) w1 of
                (Inl err, w2) \<Rightarrow> (Inr R_TasksFetchError, w2)
              | (Inr ts, w2) \<Rightarrow>
                  (case (if ts = [] then (Inr [], w2) else report_entries e ts w2) of
                     (Inl err, w3) \<Rightarrow> (Inr R_TasksFetchError, w3)
                   | (Inr es, w3) \<Rightarrow>
                       (case redis_del e chat w3 of
                          (Inl err, w4) \<Rightarrow> (Inr R_TasksFetchError, w4)
                        | (Inr _, w4) \<Rightarrow>
                            (Inr (if ts = [] then R_UserHasNoTasks (firstName u) (lastName u)
                                  else R_UserTaskReport (firstName u) (lastName u) es), w4))))))"

text \<open>The branch \<^verbatim>\<open>case USER_STEPS.AWAITING_TIME\<close>; the \<^verbatim>\<open>catch\<close> of the create ends with
  \<^verbatim>\<open>break\<close>, before the \<^verbatim>\<open>redis.del\<close> that follows the \<^verbatim>\<open>try\<close>.\<close>

definition step_time ::
  "env \<Rightarrow> time \<Rightarrow> string \<Rightarrow> string \<Rightarrow> task_data \<Rightarrow> world \<Rightarrow> (error + reply) \<times> world" where
  "step_time e now chat text td w =
     (case parseInt text of
        None \<Rightarrow> (Inr R_BadInterval, w)
      | Some interval \<Rightarrow>
          if interval \<le> 0 then (Inr R_BadInterval, w)
          else
            (case task_create e now
                    \<lparr>new_userToId = userId td, new_chatId = chat,
                     new_firstName = td_firstName td, new_lastName = td_lastName td,
                     new_text = description td, new_fileId = td_fileId td,
                     new_fileCaption = td_fileCaption td, new_status = TASK_STATUS_PENDING,
                     new_remindInterval = interval, new_lastRemind = now\<rparr> w of
               (Inl err, w1) \<Rightarrow> (Inr R_TaskCreateError, w1)
             | (Inr _, w1) \<Rightarrow>
                 (case redis_del e chat w1 of
                    (Inl err, w2) \<Rightarrow> (Inl err, w2)
                  | (Inr _, w2) \<Rightarrow> (Inr R_TaskCreated, w2))))"

text \<open>The \<^verbatim>\<open>switch (step)\<close> of the branch \<^verbatim>\<open>if (userState)\<close>.\<close>

definition message_step ::
  "env \<Rightarrow> time \<Rightarrow> string \<Rightarrow> string \<Rightarrow> message_event \<Rightarrow> session \<Rightarrow> world
     \<Rightarrow> (error + reply) \<times> world" where
  "message_step e now chat text ev sess w =
     (case step sess of
        AWAITING_DESCRIPTION \<Rightarrow> step_description e now chat text ev (taskData sess) w
      | AWAITING_USER_ID \<Rightarrow> step_user_id e now chat text ev (taskData sess) w
      | AWAITING_USER_ID_FOR_TASKS \<Rightarrow> step_user_id_for_tasks e chat text w
      | AWAITING_TIME \<Rightarrow> step_time e now chat text (taskData sess) w
      | OTHER_STEP \<Rightarrow> (Inr R_UnknownCommand, w))"

definition welcome_keyboard :: "button list list" where
  "welcome_keyboard =
     [[Button L_CreateTask ''create_task'' ''primary'',
       Button L_CheckUserTasks ''check_user_tasks'' ''primary''],
      [Button L_WatchTasks ''watch_tasks'' ''primary''],
      [Button L_WatchStatistics ''watch_statistics'' ''primary'']]"

text \<open>\<^verbatim>\<open>text.split(' ')[0]\<close>\<close>

definition command_of :: "string \<Rightarrow> string" where
  "command_of text = (case js_split CHR '' '' text of [] \<Rightarrow> [] | c # _ \<Rightarrow> c)"

text \<open>The \<^verbatim>\<open>switch (command)\<close> of the \<^verbatim>\<open>else\<close> branch (no session); the error of the
  upsert is rethrown.\<close>

definition message_command ::
  "env \<Rightarrow> string \<Rightarrow> string \<Rightarrow> message_event \<Rightarrow> world
     \<Rightarrow> (error + reply \<times> button list list) \<times> world" where
  "message_command e chat text ev w =
     (let command = command_of text in
      if command = ''/start'' then
        (case redis_del e chat w of
           (Inl err, w1) \<Rightarrow> (Inl err, w1)
         | (Inr _, w1) \<Rightarrow>
             (case user_upsert e chat (from_firstName ev) (from_lastName ev) w1 of
                (Inl err, w2) \<Rightarrow> (Inl err, w2)
              | (Inr _, w2) \<Rightarrow> (Inr (R_Welcome, welcome_keyboard), w2)))
      else if command = ''/help'' then (Inr (R_Help, []), w)
      else (Inr (R_UnknownCommand, []), w))"

text \<open>\<^verbatim>\<open>handleMessage(chatId, text, event)\<close>, run at instant \<open>now\<close>.\<close>

definition handleMessage ::
  "env \<Rightarrow> time \<Rightarrow> string \<Rightarrow> string \<Rightarrow> message_event \<Rightarrow> world \<Rightarrow> (error + unit) \<times> world" where
  "handleMessage e now chat text ev w =
     (case redis_get e now chat w of
        (Inl err, w1) \<Rightarrow> (Inl err, w1)
      | (Inr userState, w1) \<Rightarrow>
          (case (case userState of
                   Some sess \<Rightarrow>
                     (case message_step e now chat text ev sess w1 of
                        (Inl err, w2) \<Rightarrow> (Inl err, w2)
                      | (Inr r, w2) \<Rightarrow> (Inr (r, []), w2))
                 | None \<Rightarrow> message_command e chat text ev w1) of
             (Inl err, w2) \<Rightarrow> (Inl err, w2)
           | (Inr (responseText, inlineKeyboardMarkup), w2) \<Rightarrow>
               sendText e chat responseText inlineKeyboardMarkup w2))"

section \<open>The callback handler\<close>

text \<open>The branch for \<^verbatim>\<open>approve_\<close>/\<^verbatim>\<open>reject_\<close>, inside its \<^verbatim>\<open>try\<close>.\<close>

definition approve_or_reject ::
  "env \<Rightarrow> time \<Rightarrow> string \<Rightarrow> string \<Rightarrow> world \<Rightarrow> reply \<times> world" where
  "approve_or_reject e now action taskId w =
     (case task_findUnique e taskId w of
        (Inl err, w1) \<Rightarrow> (R_TaskProcessError, w1)
      | (Inr None, w1) \<Rightarrow> (R_TaskNotFound, w1)
      | (Inr (Some t), w1) \<Rightarrow>
          if status t = ''PENDING'' then
            (case task_update_status e now taskId
                    (if action = ''approve'' then ''APPROVED'' else ''REJECTED'') w1 of
               (Inl err, w2) \<Rightarrow> (R_TaskProcessError, w2)
             | (Inr _, w2) \<Rightarrow>
                 (if action = ''approve'' then R_TaskApproved else R_TaskRejected, w2))
          else if status t = ''APPROVED'' then (R_AlreadyApproved, w1)
          else if status t = ''REJECTED'' then (R_AlreadyRejected, w1)
          else (R_UnknownStatus, w1))"

text \<open>The branch \<^verbatim>\<open>case 'watch_tasks'\<close>.\<close>

definition watch_tasks :: "env \<Rightarrow> string \<Rightarrow> world \<Rightarrow> reply \<times> world" where
  "watch_tasks e uid w =
     (case task_findMany e (ByCreatorChat uid) w of
        (Inl err, w1) \<Rightarrow> (R_TasksFetchError, w1)
      | (Inr ts, w1) \<Rightarrow>
          if ts = [] then (R_NoOwnTasks, w1)
          else
            (case report_entries e ts w1 of
               (Inl err, w2) \<Rightarrow> (R_TasksFetchError, w2)
             | (Inr es, w2) \<Rightarrow> (R_OwnTaskReport es, w2)))"

text \<open>The branch \<^verbatim>\<open>case 'watch_statistics'\<close>: four counts in a row.\<close>

definition watch_statistics :: "env \<Rightarrow> string \<Rightarrow> world \<Rightarrow> reply \<times> world" where
  "watch_statistics e uid w =
     (case task_count e (CountAll uid) w of
        (Inl err, w1) \<Rightarrow> (R_StatisticsError, w1)
      | (Inr totalTasks, w1) \<Rightarrow>
     (case task_count e (CountStatus uid ''APPROVED'') w1 of
        (Inl err, w2) \<Rightarrow> (R_StatisticsError, w2)
      | (Inr approvedTasks, w2) \<Rightarrow>
     (case task_count e (CountStatus uid ''REJECTED'') w2 of
        (Inl err, w3) \<Rightarrow> (R_StatisticsError, w3)
      | (Inr rejectedTasks, w3) \<Rightarrow>
     (case task_count e (CountStatus uid ''PENDING'') w3 of
        (Inl err, w4) \<Rightarrow> (R_StatisticsError, w4)
      | (Inr pendingTasks, w4) \<Rightarrow>
          (R_Statistics totalTasks approvedTasks rejectedTasks pendingTasks, w4)))))"

text \<open>
  The part of \<^verbatim>\<open>handleCallback\<close> that produces \<^verbatim>\<open>responseText\<close>. In the first branch
  \<^verbatim>\<open>const [action, taskId] = callbackData.split('_')\<close> takes the first two segments; the
  prefix test guarantees there are two (lemma \<open>approve_reject_segments\<close> below), so the
  last case of the inner \<open>case\<close> is never taken.
\<close>

definition callback_reply ::
  "env \<Rightarrow> time \<Rightarrow> callback_event \<Rightarrow> world \<Rightarrow> (error + reply) \<times> world" where
  "callback_reply e now ev w =
     (let cd = callbackData ev; chat = cb_chatId ev; uid = cb_userId ev in
      if startsWith cd ''approve_'' \<or> startsWith cd ''reject_'' then
        (case js_split CHR ''_'' cd of
           action # taskId # _ \<Rightarrow>
             (case approve_or_reject e now action taskId w of (r, w1) \<Rightarrow> (Inr r, w1))
         | _ \<Rightarrow> (Inr R_TaskProcessError, w))
      else if cd = ''create_task'' then
        (case redis_set e now chat
                \<lparr>step = AWAITING_DESCRIPTION, taskData = empty_taskData\<rparr> None w of
           (Inl err, w1) \<Rightarrow> (Inl err, w1)
         | (Inr _, w1) \<Rightarrow> (Inr R_AskDescription, w1))
      else if cd = ''watch_tasks'' then
        (case watch_tasks e uid w of (r, w1) \<Rightarrow> (Inr r, w1))
      else if cd = ''check_user_tasks'' then
        (case redis_set e now chat
                \<lparr>step = AWAITING_USER_ID_FOR_TASKS, taskData = empty_taskData\<rparr> None w of
           (Inl err, w1) \<Rightarrow> (Inl err, w1)
         | (Inr _, w1) \<Rightarrow> (Inr R_AskContact, w1))
      else if cd = ''watch_statistics'' then
        (case watch_statistics e uid w of (r, w1) \<Rightarrow> (Inr r, w1))
      else (Inr R_UnknownCommand, w))"

text \<open>
  \<^verbatim>\<open>handleCallback(event)\<close>, run at instant \<open>now\<close>: read the session (its value is not
  used), produce the reply, acknowledge the query, send the reply with no keyboard.
\<close>

definition handleCallback ::
  "env \<Rightarrow> time \<Rightarrow> callback_event \<Rightarrow> world \<Rightarrow> (error + unit) \<times> world" where
  "handleCallback e now ev w =
     (case redis_get e now (cb_chatId ev) w of
        (Inl err, w1) \<Rightarrow> (Inl err, w1)
      | (Inr userState, w1) \<Rightarrow>
          (case callback_reply e now ev w1 of
             (Inl err, w2) \<Rightarrow> (Inl err, w2)
           | (Inr responseText, w2) \<Rightarrow>
               (case answerCallbackQuery e (queryId ev) w2 of
                  (Inl err, w3) \<Rightarrow> (Inl err, w3)
                | (Inr _, w3) \<Rightarrow> sendText e (cb_chatId ev) responseText [] w3)))"

section \<open>The bot as a whole\<close>

text \<open>
  What the two timers run: the dispatcher hands each polled event to its handler (and
  catches what the handler throws), the scheduler runs a sweep. \<open>run\<close> applies a sequence
  of such activations, each at its own instant.
\<close>

datatype activation =
    NewMessage string string message_event
  | CallbackQuery callback_event
  | ReminderTick

fun activate :: "env \<Rightarrow> time \<Rightarrow> activation \<Rightarrow> world \<Rightarrow> world" where
  "activate e now (NewMessage chat text ev) w = snd (handleMessage e now chat text ev w)"
| "activate e now (CallbackQuery ev) w = snd (handleCallback e now ev w)"
| "activate e now ReminderTick w = reminderCheck e now w"

fun run :: "env \<Rightarrow> (time \<times> activation) list \<Rightarrow> world \<Rightarrow> world" where
  "run e [] w = w"
| "run e ((now, a) # rest) w = run e rest (activate e now a w)"


section \<open>Vocabulary of the properties\<close>

text \<open>Kinds of calls.\<close>

fun is_session_write :: "io_call \<Rightarrow> bool" where
  "is_session_write (RedisSet k v ttl) = True"
| "is_session_write (RedisDel k) = True"
| "is_session_write _ = False"

fun is_task_write :: "io_call \<Rightarrow> bool" where
  "is_task_write (TaskCreate d) = True"
| "is_task_write (TaskUpdateStatus i st) = True"
| "is_task_write (TaskUpdateLastRemind i t) = True"
| "is_task_write _ = False"

fun is_repository_call :: "io_call \<Rightarrow> bool" where
  "is_repository_call (UserFindUnique u) = True"
| "is_repository_call (UserUpsert u fn ln) = True"
| "is_repository_call (TaskFindUnique i) = True"
| "is_repository_call (TaskFindMany q) = True"
| "is_repository_call (TaskCount q) = True"
| "is_repository_call (TaskCreate d) = True"
| "is_repository_call (TaskUpdateStatus i st) = True"
| "is_repository_call (TaskUpdateLastRemind i t) = True"
| "is_repository_call _ = False"

fun is_gateway_call :: "io_call \<Rightarrow> bool" where
  "is_gateway_call (SendText chat r m) = True"
| "is_gateway_call (SendFile chat f r m) = True"
| "is_gateway_call (AnswerCallbackQuery q) = True"
| "is_gateway_call _ = False"

text \<open>A task whose decision has been taken, and the reply that reports it.\<close>

definition resolved :: "task \<Rightarrow> bool" where
  "resolved t = (status t = ''APPROVED'' \<or> status t = ''REJECTED'')"

definition already_reply :: "task \<Rightarrow> reply" where
  "already_reply t = (if status t = ''APPROVED'' then R_AlreadyApproved else R_AlreadyRejected)"

text \<open>A row with its \<^verbatim>\<open>lastRemind\<close> and its \<^verbatim>\<open>updatedAt\<close> blanked: two rows agree on
  every other column exactly when their images agree.\<close>

definition except_lastRemind_updatedAt :: "task \<Rightarrow> task" where
  "except_lastRemind_updatedAt t = t\<lparr>lastRemind := 0, updatedAt := 0\<rparr>"

text \<open>Rows whose status is not \<^verbatim>\<open>PENDING\<close> are still there, under the same id and with
  the same status.\<close>

definition status_kept :: "task list \<Rightarrow> task list \<Rightarrow> bool" where
  "status_kept rows rows' =
     (\<forall>i t. lookup_task i rows = Some t \<and> status t \<noteq> ''PENDING''
        \<longrightarrow> (\<exists>t'. lookup_task i rows' = Some t' \<and> status t' = status t))"

text \<open>The trace \<open>tr'\<close> is \<open>tr\<close> followed by calls that all satisfy \<open>Q\<close>.\<close>

definition adds ::
  "(io_call \<times> outcome \<Rightarrow> bool) \<Rightarrow> (io_call \<times> outcome) list \<Rightarrow> (io_call \<times> outcome) list
     \<Rightarrow> bool" where
  "adds Q tr tr' = (\<exists>xs. tr' = tr @ xs \<and> list_all Q xs)"

text \<open>
  The calls the reply part of the callback handler may make, given the task table and
  the chat it runs for: reads of the repository, a status update to \<^verbatim>\<open>APPROVED\<close> or
  \<^verbatim>\<open>REJECTED\<close> of a row that is \<^verbatim>\<open>PENDING\<close>, and a session write with no expiry that
  enters one of two steps with empty task data.
\<close>

fun callback_policy :: "task list \<Rightarrow> string \<Rightarrow> io_call \<Rightarrow> bool" where
  "callback_policy rows chat (RedisSet k v ttl) =
     (k = chat \<and> ttl = None \<and> taskData v = empty_taskData
      \<and> (step v = AWAITING_DESCRIPTION \<or> step v = AWAITING_USER_ID_FOR_TASKS))"
| "callback_policy rows chat (UserFindUnique u) = True"
| "callback_policy rows chat (TaskFindUnique i) = True"
| "callback_policy rows chat (TaskFindMany q) = True"
| "callback_policy rows chat (TaskCount q) = True"
| "callback_policy rows chat (TaskUpdateStatus i st) =
     ((st = ''APPROVED'' \<or> st = ''REJECTED'')
      \<and> (case lookup_task i rows of None \<Rightarrow> False | Some t \<Rightarrow> status t = ''PENDING''))"
| "callback_policy rows chat _ = False"

text \<open>
  The calls the whole callback handler may make: those of its reply part, the session
  read at its start, the acknowledgement of its query and a text with no keyboard to
  its chat.
\<close>

definition callback_handler_policy :: "task list \<Rightarrow> callback_event \<Rightarrow> io_call \<Rightarrow> bool" where
  "callback_handler_policy rows ev c =
     (callback_policy rows (cb_chatId ev) c \<or> c = RedisGet (cb_chatId ev)
      \<or> c = AnswerCallbackQuery (queryId ev) \<or> (\<exists>r. c = SendText (cb_chatId ev) r []))"

text \<open>
  The calls the message handler may make for a chat at instant \<open>now\<close>: the session read,
  a session write with an expiry of 3600 seconds that enters \<^verbatim>\<open>AWAITING_USER_ID\<close> or
  \<^verbatim>\<open>AWAITING_TIME\<close>, the deletion of the chat's session, reads of the repository, the
  upsert of the chat's user, the creation of a \<^verbatim>\<open>PENDING\<close> task, and one text to the
  chat, with the welcome keyboard or none.
\<close>

fun message_policy :: "time \<Rightarrow> string \<Rightarrow> io_call \<Rightarrow> bool" where
  "message_policy now chat (RedisGet k) = (k = chat)"
| "message_policy now chat (RedisSet k v ttl) =
     (k = chat \<and> ttl = Some 3600 \<and> (step v = AWAITING_USER_ID \<or> step v = AWAITING_TIME))"
| "message_policy now chat (RedisDel k) = (k = chat)"
| "message_policy now chat (UserFindUnique u) = True"
| "message_policy now chat (UserUpsert u fn ln) = (u = chat)"
| "message_policy now chat (TaskFindMany q) = (\<exists>u. q = ByAssignee u)"
| "message_policy now chat (TaskCreate d) =
     (new_status d = ''PENDING'' \<and> new_chatId d = chat \<and> new_lastRemind d = now
      \<and> 0 < new_remindInterval d)"
| "message_policy now chat (SendText k r m) =
     (k = chat \<and> (m = [] \<or> (m = welcome_keyboard \<and> r = R_Welcome)))"
| "message_policy now chat _ = False"

text \<open>
  The calls a sweep at instant \<open>now\<close> may make, given the tasks \<open>ts\<close> it selected: the
  query, and for a selected task its lookup, its prompt to the assignee and the update
  of its \<^verbatim>\<open>lastRemind\<close> to \<open>now\<close> plus its interval.
\<close>

fun sweep_policy :: "time \<Rightarrow> task list \<Rightarrow> io_call \<Rightarrow> bool" where
  "sweep_policy now ts (TaskFindMany q) = (q = PendingBefore now)"
| "sweep_policy now ts (TaskFindUnique i) = (\<exists>t \<in> set ts. i = task_id t)"
| "sweep_policy now ts (SendText chat r m) =
     (\<exists>t \<in> set ts. chat = userToId t \<and> m = reminder_keyboard (task_id t))"
| "sweep_policy now ts (SendFile chat f r m) =
     (\<exists>t \<in> set ts. chat = userToId t \<and> m = reminder_keyboard (task_id t))"
| "sweep_policy now ts (TaskUpdateLastRemind i x) =
     (\<exists>t \<in> set ts. i = task_id t \<and> x = now + remindInterval t * 60 * 1000)"
| "sweep_policy now ts _ = False"

text \<open>
  The session writes of each activation: the message handler writes with an expiry of
  3600 seconds (entering \<^verbatim>\<open>AWAITING_USER_ID\<close> or \<^verbatim>\<open>AWAITING_TIME\<close>), the callback handler
  writes with none (entering \<^verbatim>\<open>AWAITING_DESCRIPTION\<close> or \<^verbatim>\<open>AWAITING_USER_ID_FOR_TASKS\<close>),
  the sweep does not write.
\<close>

fun session_write_ok :: "activation \<Rightarrow> io_call \<Rightarrow> bool" where
  "session_write_ok (NewMessage chat text ev) (RedisSet k v ttl) =
     (ttl = Some 3600 \<and> (step v = AWAITING_USER_ID \<or> step v = AWAITING_TIME))"
| "session_write_ok (CallbackQuery ev) (RedisSet k v ttl) =
     (ttl = None \<and> (step v = AWAITING_DESCRIPTION \<or> step v = AWAITING_USER_ID_FOR_TASKS))"
| "session_write_ok ReminderTick (RedisSet k v ttl) = False"
| "session_write_ok a _ = True"

text \<open>
  The reading of "numeric input" that claim C8 is compared with: an optional sign
  followed by decimal digits and nothing else.
\<close>

definition spec_integer_text :: "string \<Rightarrow> bool" where
  "spec_integer_text s =
     (case s of
        [] \<Rightarrow> False
      | c # r \<Rightarrow>
          if c = CHR ''-'' \<or> c = CHR ''+'' then r \<noteq> [] \<and> list_all isDigit r
          else list_all isDigit s)"

text \<open>The generic error reply of each step that calls the repository (the steps
  \<^verbatim>\<open>AWAITING_DESCRIPTION\<close> and \<open>OTHER_STEP\<close> make no such call).\<close>

fun generic_error :: "USER_STEPS \<Rightarrow> reply" where
  "generic_error AWAITING_USER_ID = R_AccountCheckError"
| "generic_error AWAITING_USER_ID_FOR_TASKS = R_TasksFetchError"
| "generic_error AWAITING_TIME = R_TaskCreateError"
| "generic_error _ = R_UnknownCommand"




text \<open>The table is as it was, or has one more row, under an id that was not in use.\<close>

definition appended :: "task list \<Rightarrow> task list \<Rightarrow> bool" where
  "appended rows rows' =
     (rows' = rows \<or> (\<exists>row. rows' = rows @ [row] \<and> lookup_task (task_id row) rows = None))"


subsection \<open>Sample data for the worked instances\<close>

definition env_ok :: env where
  "env_ok = \<lparr>fails = (\<lambda>n. False), uuid = (\<lambda>n. ''t2'')\<rparr>"

definition al :: user where
  "al = \<lparr>vkId = ''al@x'', firstName = ''Al'', lastName = ''A''\<rparr>"

definition bob :: user where
  "bob = \<lparr>vkId = ''bob@x'', firstName = ''Bob'', lastName = ''B''\<rparr>"

definition task1 :: task where
  "task1 = \<lparr>task_id = ''t1'', userToId = ''bob@x'', chatId = ''al@x'',
            creator_firstName = ''Al'', creator_lastName = ''A'',
            task_text = Some ''Fix bug'', fileCaption = None, fileId = None,
            status = ''PENDING'', remindInterval = 30, lastRemind = 1000, createdAt = 1000,
            updatedAt = 1000\<rparr>"

definition world_pending :: world where
  "world_pending = \<lparr>redis = Map.empty, tasks = [task1], users = [al, bob], trace = []\<rparr>"

definition world_approved :: world where
  "world_approved =
     \<lparr>redis = Map.empty, tasks = [task1\<lparr>status := ''APPROVED''\<rparr>], users = [al, bob], trace = []\<rparr>"

definition press :: "string \<Rightarrow> callback_event" where
  "press cd = \<lparr>callbackData = cd, queryId = ''q1'', cb_chatId = ''bob@x'', cb_userId = ''bob@x''\<rparr>"

definition from_al :: message_event where
  "from_al = \<lparr>from_firstName = ''Al'', from_lastName = ''A'', parts = []\<rparr>"

definition world_at_time :: world where
  "world_at_time =
     world_pending\<lparr>redis :=
       [''bob@x'' \<mapsto> (\<lparr>step = AWAITING_TIME, taskData = empty_taskData\<rparr>, None)]\<rparr>"

text \<open>An environment in which the second call of a run throws.\<close>

definition env_second_fails :: env where
  "env_second_fails = \<lparr>fails = (\<lambda>n. n = 1), uuid = (\<lambda>n. ''t2'')\<rparr>"

text \<open>An environment in which the fourth call of a run throws.\<close>

definition env_fourth_fails :: env where
  "env_fourth_fails = \<lparr>fails = (\<lambda>n. n = 3), uuid = (\<lambda>n. ''t2'')\<rparr>"

text \<open>Al's task data after the description step and after the contact step, and a
  world in which Al's chat is at a given step.\<close>

definition draft_described :: task_data where
  "draft_described =
     \<lparr>description = Some ''Fix bug'', td_firstName = Some ''Al'', td_lastName = Some ''A'',
      td_fileId = None, td_fileCaption = None, userId = None\<rparr>"

definition draft_assigned :: task_data where
  "draft_assigned = draft_described\<lparr>userId := Some ''bob@x''\<rparr>"

definition world_in_step :: "USER_STEPS \<Rightarrow> task_data \<Rightarrow> world" where
  "world_in_step st td =
     \<lparr>redis = [''al@x'' \<mapsto> (\<lparr>step = st, taskData = td\<rparr>, Some 3600000)],
      tasks = [], users = [al, bob], trace = []\<rparr>"

section \<open>Basic facts\<close>

lemmas prim_defs = redis_get_def redis_set_def redis_del_def user_findUnique_def user_upsert_def
  task_findUnique_def task_findMany_def task_count_def task_create_def task_update_def
  task_update_status_def task_update_lastRemind_def gateway_def sendText_def sendFile_def
  answerCallbackQuery_def logged_def

lemmas sample_defs = env_ok_def al_def bob_def task1_def world_pending_def world_approved_def
  world_at_time_def env_second_fails_def env_fourth_fails_def draft_described_def draft_assigned_def
  world_in_step_def
  press_def from_al_def

lemma new_calls_self [simp]: "new_calls w w = []"
  by (simp add: new_calls_def)

lemma new_calls_app: "trace w' = trace w @ xs \<Longrightarrow> new_calls w w' = xs"
  by (simp add: new_calls_def)

subsection \<open>Splitting\<close>

lemma js_split_nonempty: "js_split sep s \<noteq> []"
  by (induction s) (auto split: list.splits)

lemma js_split_no_sep: "sep \<notin> set s \<Longrightarrow> js_split sep s = [s]"
  by (induction s) auto

lemma js_split_after_sep:
  "sep \<notin> set p \<Longrightarrow> js_split sep (p @ sep # s) = p # js_split sep s"
  by (induction p) (auto split: list.splits)

lemma startsWith_append: "startsWith s p \<Longrightarrow> s = p @ drop (length p) s"
  by (metis append_take_drop_id startsWith_def)

lemma approve_reject_segments:
  assumes "startsWith cd ''approve_'' \<or> startsWith cd ''reject_''"
  shows "\<exists>action taskId rest.
           js_split CHR ''_'' cd = action # taskId # rest
           \<and> (action = ''approve'') = startsWith cd ''approve_''"
proof -
  from assms consider s where "cd = ''approve'' @ CHR ''_'' # s" "startsWith cd ''approve_''"
    | s where "cd = ''reject'' @ CHR ''_'' # s" "\<not> startsWith cd ''approve_''"
  proof (cases "startsWith cd ''approve_''")
    case True
    from startsWith_append[OF this] True that(1)[of "drop (length ''approve_'') cd"]
    show ?thesis by simp
  next
    case False
    with assms have "startsWith cd ''reject_''" by simp
    from startsWith_append[OF this] False that(2)[of "drop (length ''reject_'') cd"]
    show ?thesis by simp
  qed
  then show ?thesis
  proof cases
    case 1
    obtain x xs where "js_split CHR ''_'' s = x # xs"
      using js_split_nonempty[of "CHR ''_''" s] by (cases "js_split CHR ''_'' s") auto
    with 1 js_split_after_sep[of "CHR ''_''" "''approve''" s] show ?thesis by simp
  next
    case 2
    obtain x xs where "js_split CHR ''_'' s = x # xs"
      using js_split_nonempty[of "CHR ''_''" s] by (cases "js_split CHR ''_'' s") auto
    with 2 js_split_after_sep[of "CHR ''_''" "''reject''" s] show ?thesis by simp
  qed
qed

lemma split_approve:
  "CHR ''_'' \<notin> set i \<Longrightarrow> js_split CHR ''_'' (''approve_'' @ i) = [''approve'', i]"
  by (simp add: js_split_no_sep)

lemma split_reject:
  "CHR ''_'' \<notin> set i \<Longrightarrow> js_split CHR ''_'' (''reject_'' @ i) = [''reject'', i]"
  by (simp add: js_split_no_sep)

subsection \<open>Rows\<close>

lemma lookup_task_append:
  "lookup_task i (rows @ [r]) =
     (case lookup_task i rows of
        Some t \<Rightarrow> Some t
      | None \<Rightarrow> if task_id r = i then Some r else None)"
  by (induction rows) (auto simp: lookup_task_def)

lemma lookup_task_update_row:
  assumes "\<And>t. task_id (f t) = task_id t"
  shows "lookup_task i (update_row j f rows) =
           (if i = j then map_option f (lookup_task i rows) else lookup_task i rows)"
  using assms by (induction rows) (auto simp: lookup_task_def)

lemma map_update_row_except:
  "map except_lastRemind_updatedAt (update_row i (\<lambda>r. r\<lparr>lastRemind := x, updatedAt := now\<rparr>) rows)
     = map except_lastRemind_updatedAt rows"
  by (induction rows) (auto simp: except_lastRemind_updatedAt_def)

lemma lookup_task_map_except:
  "lookup_task i (map except_lastRemind_updatedAt rows) = map_option except_lastRemind_updatedAt (lookup_task i rows)"
  by (induction rows) (auto simp: lookup_task_def except_lastRemind_updatedAt_def)

subsection \<open>Traces\<close>

lemma adds_refl [simp]: "adds Q tr tr"
  by (simp add: adds_def)

lemma adds_app [simp]: "adds Q tr (tr @ xs) = list_all Q xs"
  by (auto simp: adds_def)

lemma adds_trans: "adds Q a b \<Longrightarrow> adds Q b c \<Longrightarrow> adds Q a c"
  by (auto simp: adds_def)

lemma adds_snoc: "adds Q a b \<Longrightarrow> Q c \<Longrightarrow> adds Q a (b @ [c])"
  by (auto simp: adds_def)

lemma adds_from_snoc: "adds Q (a @ [c]) b \<Longrightarrow> Q c \<Longrightarrow> adds Q a b"
  by (auto simp: adds_def)

lemma adds_mono: "adds Q a b \<Longrightarrow> (\<And>c. Q c \<Longrightarrow> Q' c) \<Longrightarrow> adds Q' a b"
  by (auto simp: adds_def list_all_iff)

lemma adds_new_calls: "adds Q (trace w) (trace w') \<Longrightarrow> list_all Q (new_calls w w')"
  by (auto simp: adds_def new_calls_def)

lemma adds_trace: "adds Q (trace w) (trace w') \<Longrightarrow> trace w' = trace w @ new_calls w w'"
  by (auto simp: adds_def new_calls_def)

subsection \<open>Status preservation\<close>

lemma status_kept_refl [simp]: "status_kept rows rows"
  by (simp add: status_kept_def)

lemma status_kept_trans: "status_kept a b \<Longrightarrow> status_kept b c \<Longrightarrow> status_kept a c"
  unfolding status_kept_def by metis

lemma status_kept_append [simp]: "status_kept rows (rows @ [r])"
  by (simp add: status_kept_def lookup_task_append)

lemma status_kept_update:
  "lookup_task j rows = Some p \<Longrightarrow> status p = ''PENDING'' \<Longrightarrow>
   status_kept rows (update_row j (\<lambda>t. t\<lparr>status := st, updatedAt := now\<rparr>) rows)"
  by (auto simp: status_kept_def lookup_task_update_row)

lemma status_kept_except:
  assumes "map except_lastRemind_updatedAt rows' = map except_lastRemind_updatedAt rows"
  shows "status_kept rows rows'"
proof -
  have eq: "map_option except_lastRemind_updatedAt (lookup_task i rows')
          = map_option except_lastRemind_updatedAt (lookup_task i rows)" for i
    using assms lookup_task_map_except by metis
  show ?thesis
    unfolding status_kept_def
  proof (intro allI impI)
    fix i t assume h: "lookup_task i rows = Some t \<and> status t \<noteq> ''PENDING''"
    with eq[of i] obtain t' where t': "lookup_task i rows' = Some t'"
      and e: "except_lastRemind_updatedAt t' = except_lastRemind_updatedAt t" by auto
    from e have "status (except_lastRemind_updatedAt t') = status (except_lastRemind_updatedAt t)" by simp
    then have "status t' = status t" by (simp add: except_lastRemind_updatedAt_def)
    with t' show "\<exists>t'. lookup_task i rows' = Some t' \<and> status t' = status t" by blast
  qed
qed

section \<open>What the reminder sweep leaves alone\<close>

lemma sendReminder_frame:
  "sendReminderWithButtons e c i w = (r, w') \<Longrightarrow>
     tasks w' = tasks w \<and> users w' = users w \<and> redis w' = redis w"
  by (auto simp: sendReminderWithButtons_def prim_defs
      split: prod.splits sum.splits option.splits if_splits)

lemma remind_one_frame:
  "map except_lastRemind_updatedAt (tasks (remind_one e now t w)) = map except_lastRemind_updatedAt (tasks w)
   \<and> users (remind_one e now t w) = users w \<and> redis (remind_one e now t w) = redis w"
  by (auto simp: remind_one_def prim_defs map_update_row_except
      split: prod.splits sum.splits option.splits if_splits dest!: sendReminder_frame)

lemma remind_each_frame:
  "map except_lastRemind_updatedAt (tasks (remind_each e now ts w)) = map except_lastRemind_updatedAt (tasks w)
   \<and> users (remind_each e now ts w) = users w \<and> redis (remind_each e now ts w) = redis w"
  by (induction ts arbitrary: w) (simp_all add: remind_one_frame)

lemma reminderCheck_frame:
  "map except_lastRemind_updatedAt (tasks (reminderCheck e now w)) = map except_lastRemind_updatedAt (tasks w)
   \<and> users (reminderCheck e now w) = users w \<and> redis (reminderCheck e now w) = redis w"
  by (auto simp: reminderCheck_def task_findMany_def logged_def remind_each_frame
      split: prod.splits sum.splits if_splits)

section \<open>What the handlers do to the task table\<close>

lemma report_entries_frame:
  "report_entries e ts w = (r, w') \<Longrightarrow>
     tasks w' = tasks w \<and> users w' = users w \<and> redis w' = redis w"
  by (induction ts arbitrary: w r w')
     (auto simp: user_findUnique_def logged_def split: prod.splits sum.splits if_splits)

lemma message_step_kept:
  "message_step e now chat text ev sess w = (r, w') \<Longrightarrow> status_kept (tasks w) (tasks w')"
  by (auto simp: message_step_def step_description_def step_user_id_def
        step_user_id_for_tasks_def step_time_def prim_defs Let_def
      split: USER_STEPS.splits prod.splits sum.splits option.splits if_splits
      dest!: report_entries_frame)

lemma message_command_tasks:
  "message_command e chat text ev w = (r, w') \<Longrightarrow> tasks w' = tasks w"
  by (auto simp: message_command_def prim_defs Let_def
      split: prod.splits sum.splits option.splits if_splits)

lemma handleMessage_kept:
  "status_kept (tasks w) (tasks (snd (handleMessage e now chat text ev w)))"
  by (auto simp: handleMessage_def redis_get_def sendText_def gateway_def logged_def
      split: prod.splits sum.splits option.splits if_splits
      dest!: message_step_kept message_command_tasks)

lemma approve_or_reject_kept:
  "approve_or_reject e now a i w = (r, w') \<Longrightarrow> status_kept (tasks w) (tasks w')"
  by (auto simp: approve_or_reject_def prim_defs status_kept_update
      split: prod.splits sum.splits option.splits if_splits)

lemma watch_tasks_frame:
  "watch_tasks e u w = (r, w') \<Longrightarrow>
     tasks w' = tasks w \<and> users w' = users w \<and> redis w' = redis w"
  by (auto simp: watch_tasks_def prim_defs
      split: prod.splits sum.splits option.splits if_splits dest!: report_entries_frame)

lemma watch_statistics_frame:
  "watch_statistics e u w = (r, w') \<Longrightarrow>
     tasks w' = tasks w \<and> users w' = users w \<and> redis w' = redis w"
  by (auto simp: watch_statistics_def prim_defs
      split: prod.splits sum.splits option.splits if_splits)

lemma callback_reply_kept:
  "callback_reply e now ev w = (r, w') \<Longrightarrow> status_kept (tasks w) (tasks w')"
  by (auto simp: callback_reply_def redis_set_def logged_def Let_def
      split: prod.splits sum.splits option.splits if_splits list.splits
      dest!: approve_or_reject_kept watch_tasks_frame watch_statistics_frame)

lemma handleCallback_kept:
  "status_kept (tasks w) (tasks (snd (handleCallback e now ev w)))"
  by (auto simp: handleCallback_def redis_get_def sendText_def answerCallbackQuery_def
        gateway_def logged_def
      split: prod.splits sum.splits option.splits if_splits
      dest!: callback_reply_kept)

lemma activate_status_kept: "status_kept (tasks w) (tasks (activate e now a w))"
  by (cases a)
     (simp_all add: handleMessage_kept handleCallback_kept status_kept_except reminderCheck_frame)

lemma run_status_kept: "status_kept (tasks w) (tasks (run e acts w))"
proof (induction acts arbitrary: w)
  case Nil
  then show ?case by simp
next
  case (Cons a acts)
  obtain now act where a: "a = (now, act)" by (cases a)
  show ?case
    unfolding a run.simps
    by (rule status_kept_trans[OF activate_status_kept Cons.IH])
qed

section \<open>The calls of the callback handler\<close>

lemma report_entries_adds:
  assumes "\<And>u out. Q (UserFindUnique u, out)"
  shows "report_entries e ts w = (r, w') \<Longrightarrow> adds Q (trace w) (trace w')"
proof (induction ts arbitrary: w r w')
  case Nil
  then show ?case by simp
next
  case (Cons t ts)
  show ?case
  proof (cases "throws e w")
    case True
    with Cons.prems show ?thesis
      by (auto simp: user_findUnique_def logged_def assms)
  next
    case False
    let ?w1 = "logged (UserFindUnique (userToId t)) Returned w"
    obtain r2 w2 where r2: "report_entries e ts ?w1 = (r2, w2)"
      by (cases "report_entries e ts ?w1")
    from Cons.IH[OF r2] have "adds Q (trace ?w1) (trace w2)" .
    then have "adds Q (trace w) (trace w2)"
      by (auto simp: logged_def intro: adds_from_snoc assms)
    moreover from Cons.prems False r2 have "w' = w2"
      by (auto simp: user_findUnique_def split: sum.splits)
    ultimately show ?thesis by simp
  qed
qed

lemma approve_or_reject_policy:
  "approve_or_reject e now a i w = (r, w') \<Longrightarrow>
     adds (callback_policy (tasks w) chat \<circ> fst) (trace w) (trace w')"
  by (auto simp: approve_or_reject_def prim_defs
      split: prod.splits sum.splits option.splits if_splits)

lemma watch_tasks_policy:
  "watch_tasks e u w = (r, w') \<Longrightarrow>
     adds (callback_policy rows chat \<circ> fst) (trace w) (trace w')"
  by (auto simp: watch_tasks_def task_findMany_def logged_def
      split: prod.splits sum.splits option.splits if_splits
      dest!: report_entries_adds[where Q = "callback_policy rows chat \<circ> fst", rotated]
      intro: adds_from_snoc)

lemma watch_statistics_policy:
  "watch_statistics e u w = (r, w') \<Longrightarrow>
     adds (callback_policy rows chat \<circ> fst) (trace w) (trace w')"
  by (auto simp: watch_statistics_def prim_defs
      split: prod.splits sum.splits option.splits if_splits)

lemma callback_reply_policy:
  "callback_reply e now ev w = (r, w') \<Longrightarrow>
     adds (callback_policy (tasks w) (cb_chatId ev) \<circ> fst) (trace w) (trace w')"
  by (auto simp: callback_reply_def redis_set_def logged_def Let_def
      split: prod.splits sum.splits option.splits if_splits list.splits
      dest!: approve_or_reject_policy[where chat = "cb_chatId ev"]
             watch_tasks_policy[where chat = "cb_chatId ev" and rows = "tasks w"]
             watch_statistics_policy[where chat = "cb_chatId ev" and rows = "tasks w"]
      intro: adds_snoc)

lemma handleCallback_policy:
  "adds (callback_handler_policy (tasks w) ev \<circ> fst)
        (trace w) (trace (snd (handleCallback e now ev w)))"
  by (auto simp: handleCallback_def redis_get_def sendText_def answerCallbackQuery_def
        gateway_def logged_def adds_def list_all_iff callback_handler_policy_def
      split: prod.splits sum.splits option.splits if_splits
      dest!: callback_reply_policy)

section \<open>A decision is taken once\<close>

lemma approve_or_reject_resolved:
  assumes "lookup_task i (tasks w) = Some t" and "resolved t"
  shows "approve_or_reject e now a i w =
           (if throws e w then (R_TaskProcessError, logged (TaskFindUnique i) Threw w)
            else (already_reply t, logged (TaskFindUnique i) Returned w))"
  using assms
  by (auto simp: approve_or_reject_def task_findUnique_def resolved_def already_reply_def)

lemma callback_reply_resolved:
  assumes "lookup_task i (tasks w) = Some t" and "resolved t"
    and "CHR ''_'' \<notin> set i"
    and "callbackData ev = ''approve_'' @ i \<or> callbackData ev = ''reject_'' @ i"
  shows "callback_reply e now ev w =
           (if throws e w then (Inr R_TaskProcessError, logged (TaskFindUnique i) Threw w)
            else (Inr (already_reply t), logged (TaskFindUnique i) Returned w))"
  using assms
  by (auto simp: callback_reply_def startsWith_def js_split_no_sep
        approve_or_reject_resolved)

lemma handleCallback_resolved:
  assumes "lookup_task i (tasks w) = Some t" and "resolved t"
    and "CHR ''_'' \<notin> set i"
    and "callbackData ev = ''approve_'' @ i \<or> callbackData ev = ''reject_'' @ i"
  shows "tasks (snd (handleCallback e now ev w)) = tasks w"
    and "list_all (\<lambda>c. \<not> is_task_write (fst c)) (new_calls w (snd (handleCallback e now ev w)))"
    and "\<not> fails e (length (trace w)) \<and> \<not> fails e (Suc (length (trace w)))
         \<and> \<not> fails e (Suc (Suc (length (trace w)))) \<longrightarrow>
          (\<exists>out. new_calls w (snd (handleCallback e now ev w)) =
             [(RedisGet (cb_chatId ev), Returned), (TaskFindUnique i, Returned),
              (AnswerCallbackQuery (queryId ev), Returned),
              (SendText (cb_chatId ev) (already_reply t) [], out)])"
proof -
  have cr: "callback_reply e now ev w1 =
           (if throws e w1 then (Inr R_TaskProcessError, logged (TaskFindUnique i) Threw w1)
            else (Inr (already_reply t), logged (TaskFindUnique i) Returned w1))"
    if "tasks w1 = tasks w" for w1
    using callback_reply_resolved[of i w1 t ev e now] assms that by simp
  show "tasks (snd (handleCallback e now ev w)) = tasks w"
    by (simp add: handleCallback_def redis_get_def cr logged_def gateway_def
        answerCallbackQuery_def sendText_def)
  show "list_all (\<lambda>c. \<not> is_task_write (fst c)) (new_calls w (snd (handleCallback e now ev w)))"
    by (simp add: handleCallback_def redis_get_def cr logged_def gateway_def
        answerCallbackQuery_def sendText_def new_calls_def)
  show "\<not> fails e (length (trace w)) \<and> \<not> fails e (Suc (length (trace w)))
         \<and> \<not> fails e (Suc (Suc (length (trace w)))) \<longrightarrow>
          (\<exists>out. new_calls w (snd (handleCallback e now ev w)) =
             [(RedisGet (cb_chatId ev), Returned), (TaskFindUnique i, Returned),
              (AnswerCallbackQuery (queryId ev), Returned),
              (SendText (cb_chatId ev) (already_reply t) [], out)])"
    by (simp add: handleCallback_def redis_get_def cr logged_def gateway_def
        answerCallbackQuery_def sendText_def throws_def new_calls_def)
qed

text \<open>
  Claim C1. A task whose status is \<^verbatim>\<open>APPROVED\<close> or \<^verbatim>\<open>REJECTED\<close> keeps that status for
  good, and the callback handler is the reason why.
  \<^item> Whatever the callback, the handler attempts a status update of a task only when the
    row it looked up is \<^verbatim>\<open>PENDING\<close>.
  \<^item> A row that is resolved is found again, with the same status, after any sequence of
    messages, callbacks and reminder sweeps.
  \<^item> An \<^verbatim>\<open>approve_<id>\<close> or \<^verbatim>\<open>reject_<id>\<close> callback on a resolved task leaves the task
    table as it is and makes no write to it; when the session read, the lookup and
    the acknowledgement return, the calls of the handler are exactly these four, the
    last being the reply that reports the status the task already has.
\<close>

theorem resolved_status_is_final:
  "(\<forall>j st out. (TaskUpdateStatus j st, out) \<in> set (new_calls w (snd (handleCallback e now ev w)))
        \<longrightarrow> (\<exists>t. lookup_task j (tasks w) = Some t \<and> status t = ''PENDING''))
   \<and> (\<forall>i t. lookup_task i (tasks w) = Some t \<and> resolved t \<longrightarrow>
        (\<forall>acts. \<exists>t'. lookup_task i (tasks (run e acts w)) = Some t' \<and> status t' = status t)
      \<and> (CHR ''_'' \<notin> set i
           \<and> (callbackData ev = ''approve_'' @ i \<or> callbackData ev = ''reject_'' @ i) \<longrightarrow>
            tasks (snd (handleCallback e now ev w)) = tasks w
          \<and> list_all (\<lambda>c. \<not> is_task_write (fst c)) (new_calls w (snd (handleCallback e now ev w)))
          \<and> (\<not> fails e (length (trace w)) \<and> \<not> fails e (Suc (length (trace w)))
               \<and> \<not> fails e (Suc (Suc (length (trace w)))) \<longrightarrow>
               (\<exists>out. new_calls w (snd (handleCallback e now ev w)) =
                 [(RedisGet (cb_chatId ev), Returned), (TaskFindUnique i, Returned),
                  (AnswerCallbackQuery (queryId ev), Returned),
                  (SendText (cb_chatId ev) (already_reply t) [], out)]))))"
proof (intro conjI allI impI)
  fix j st out
  assume "(TaskUpdateStatus j st, out) \<in> set (new_calls w (snd (handleCallback e now ev w)))"
  with adds_new_calls[OF handleCallback_policy[of w ev e now]]
  have "callback_handler_policy (tasks w) ev (TaskUpdateStatus j st)"
    by (auto simp: list_all_iff)
  then show "\<exists>t. lookup_task j (tasks w) = Some t \<and> status t = ''PENDING''"
    by (auto simp: callback_handler_policy_def split: option.splits)
next
  fix i t acts
  assume h: "lookup_task i (tasks w) = Some t \<and> resolved t"
  then have "status t \<noteq> ''PENDING''" by (auto simp: resolved_def)
  with h run_status_kept[of w e acts]
  show "\<exists>t'. lookup_task i (tasks (run e acts w)) = Some t' \<and> status t' = status t"
    unfolding status_kept_def by blast
next
  fix i t
  assume "lookup_task i (tasks w) = Some t \<and> resolved t"
    and "CHR ''_'' \<notin> set i
         \<and> (callbackData ev = ''approve_'' @ i \<or> callbackData ev = ''reject_'' @ i)"
  then show "tasks (snd (handleCallback e now ev w)) = tasks w"
    using handleCallback_resolved(1) by blast
next
  fix i t
  assume "lookup_task i (tasks w) = Some t \<and> resolved t"
    and "CHR ''_'' \<notin> set i
         \<and> (callbackData ev = ''approve_'' @ i \<or> callbackData ev = ''reject_'' @ i)"
  then show "list_all (\<lambda>c. \<not> is_task_write (fst c))
               (new_calls w (snd (handleCallback e now ev w)))"
    using handleCallback_resolved(2) by blast
next
  fix i t
  assume "lookup_task i (tasks w) = Some t \<and> resolved t"
    and "CHR ''_'' \<notin> set i
         \<and> (callbackData ev = ''approve_'' @ i \<or> callbackData ev = ''reject_'' @ i)"
    and "\<not> fails e (length (trace w)) \<and> \<not> fails e (Suc (length (trace w)))
               \<and> \<not> fails e (Suc (Suc (length (trace w))))"
  then show "\<exists>out. new_calls w (snd (handleCallback e now ev w)) =
                 [(RedisGet (cb_chatId ev), Returned), (TaskFindUnique i, Returned),
                  (AnswerCallbackQuery (queryId ev), Returned),
                  (SendText (cb_chatId ev) (already_reply t) [], out)]"
    using handleCallback_resolved(3)[of i w t ev e now] by blast
qed

text \<open>
  The instance: task \<open>t1\<close> is approved; its assignee presses \<^verbatim>\<open>reject_t1\<close>. The reply says
  the task is already approved, and after the press, a second press and a sweep the
  task is still approved.
\<close>

theorem resolved_status_is_final_witness:
  "lookup_task ''t1'' (tasks world_approved) = Some (task1\<lparr>status := ''APPROVED''\<rparr>)
   \<and> resolved (task1\<lparr>status := ''APPROVED''\<rparr>)
   \<and> (\<exists>t'. lookup_task ''t1''
              (tasks (run env_ok [(5000, CallbackQuery (press ''reject_t1'')),
                                  (6000, CallbackQuery (press ''reject_t1'')),
                                  (7000, ReminderTick)] world_approved)) = Some t'
          \<and> status t' = ''APPROVED'')
   \<and> tasks (snd (handleCallback env_ok 5000 (press ''reject_t1'') world_approved))
       = tasks world_approved
   \<and> new_calls world_approved (snd (handleCallback env_ok 5000 (press ''reject_t1'') world_approved))
       = [(RedisGet ''bob@x'', Returned), (TaskFindUnique ''t1'', Returned),
          (AnswerCallbackQuery ''q1'', Returned),
          (SendText ''bob@x'' R_AlreadyApproved [], Returned)]"
proof -
  have h1: "lookup_task ''t1'' (tasks world_approved) = Some (task1\<lparr>status := ''APPROVED''\<rparr>)"
    by code_simp
  have h2: "resolved (task1\<lparr>status := ''APPROVED''\<rparr>)"
    by code_simp
  have h3: "CHR ''_'' \<notin> set ''t1''
            \<and> (callbackData (press ''reject_t1'') = ''approve_'' @ ''t1''
               \<or> callbackData (press ''reject_t1'') = ''reject_'' @ ''t1'')"
    by (simp add: press_def)
  have c: "new_calls world_approved
             (snd (handleCallback env_ok 5000 (press ''reject_t1'') world_approved))
           = [(RedisGet ''bob@x'', Returned), (TaskFindUnique ''t1'', Returned),
              (AnswerCallbackQuery ''q1'', Returned),
              (SendText ''bob@x'' R_AlreadyApproved [], Returned)]"
    by code_simp
  have s: "status (task1\<lparr>status := ''APPROVED''\<rparr>) = ''APPROVED''"
    by simp
  from resolved_status_is_final[of world_approved env_ok 5000 "press ''reject_t1''"] h1 h2 h3 c s
  show ?thesis by metis
qed

section \<open>A decision callback and the session\<close>

lemma approve_or_reject_session:
  "approve_or_reject e now a i w = (r, w') \<Longrightarrow>
     redis w' = redis w \<and> adds (\<lambda>c. \<not> is_session_write (fst c)) (trace w) (trace w')"
  by (auto simp: approve_or_reject_def prim_defs
      split: prod.splits sum.splits option.splits if_splits)

text \<open>
  Claim C10. Handling an \<^verbatim>\<open>approve_...\<close> or \<^verbatim>\<open>reject_...\<close> callback makes no
  \<^verbatim>\<open>redis.set\<close> and no \<^verbatim>\<open>redis.del\<close>, and leaves every key of the session store as it
  was, whatever the lookup finds and whichever call throws.
\<close>

theorem decision_callback_keeps_session:
  assumes "startsWith (callbackData ev) ''approve_'' \<or> startsWith (callbackData ev) ''reject_''"
  shows "redis (snd (handleCallback e now ev w)) = redis w
       \<and> list_all (\<lambda>c. \<not> is_session_write (fst c))
           (new_calls w (snd (handleCallback e now ev w)))"
  using assms
  by (auto simp: handleCallback_def callback_reply_def prim_defs Let_def adds_def new_calls_def
      split: prod.splits sum.splits option.splits if_splits list.splits
      dest!: approve_or_reject_session)

text \<open>The instance: the assignee is in the middle of a flow of his own (step
  \<^verbatim>\<open>AWAITING_TIME\<close>) when he approves task \<open>t1\<close>.\<close>

theorem decision_callback_keeps_session_witness:
  "startsWith (callbackData (press ''approve_t1'')) ''approve_''
   \<and> redis (snd (handleCallback env_ok 5000 (press ''approve_t1'') world_at_time))
       = redis world_at_time
   \<and> map fst (new_calls world_at_time
                 (snd (handleCallback env_ok 5000 (press ''approve_t1'') world_at_time)))
       = [RedisGet ''bob@x'', TaskFindUnique ''t1'', TaskUpdateStatus ''t1'' ''APPROVED'',
          AnswerCallbackQuery ''q1'', SendText ''bob@x'' R_TaskApproved []]"
proof -
  have h: "startsWith (callbackData (press ''approve_t1'')) ''approve_''"
    by code_simp
  have c: "map fst (new_calls world_at_time
                      (snd (handleCallback env_ok 5000 (press ''approve_t1'') world_at_time)))
       = [RedisGet ''bob@x'', TaskFindUnique ''t1'', TaskUpdateStatus ''t1'' ''APPROVED'',
          AnswerCallbackQuery ''q1'', SendText ''bob@x'' R_TaskApproved []]"
    by code_simp
  from decision_callback_keeps_session[of "press ''approve_t1''" env_ok 5000 world_at_time] h c
  show ?thesis by blast
qed

section \<open>The calls of the message handler and of the sweep\<close>

lemma message_step_policy:
  "message_step e now chat text ev sess w = (r, w') \<Longrightarrow>
     adds (\<lambda>c. message_policy now chat (fst c)) (trace w) (trace w')"
  by (auto simp: message_step_def step_description_def step_user_id_def
        step_user_id_for_tasks_def step_time_def prim_defs Let_def TASK_STATUS_PENDING_def
        new_row_def adds_def list_all_iff
      split: USER_STEPS.splits prod.splits sum.splits option.splits if_splits
      dest!: report_entries_adds[where Q = "\<lambda>c. message_policy now chat (fst c)", rotated])

lemma message_command_policy:
  "message_command e chat text ev w = (r, w') \<Longrightarrow>
     adds (\<lambda>c. message_policy now chat (fst c)) (trace w) (trace w')
     \<and> (case r of Inl err \<Rightarrow> True | Inr (rep, m) \<Rightarrow> m = [] \<or> (m = welcome_keyboard \<and> rep = R_Welcome))"
  by (auto simp: message_command_def prim_defs Let_def
      split: prod.splits sum.splits option.splits if_splits)

lemma handleMessage_policy:
  "adds (\<lambda>c. message_policy now chat (fst c)) (trace w) (trace (snd (handleMessage e now chat text ev w)))"
  by (auto simp: handleMessage_def redis_get_def sendText_def gateway_def logged_def
        adds_def list_all_iff
      split: prod.splits sum.splits option.splits if_splits
      dest!: message_step_policy message_command_policy[where now = now])

lemma sweep_policy_mono:
  "sweep_policy now ts c \<Longrightarrow> set ts \<subseteq> set ts' \<Longrightarrow> sweep_policy now ts' c"
  by (cases c) auto

lemma remind_one_policy:
  "adds (\<lambda>c. sweep_policy now [t] (fst c)) (trace w) (trace (remind_one e now t w))"
  by (auto simp: remind_one_def sendReminderWithButtons_def prim_defs
      split: prod.splits sum.splits option.splits if_splits)

lemma remind_each_policy:
  "adds (\<lambda>c. sweep_policy now ts (fst c)) (trace w) (trace (remind_each e now ts w))"
proof (induction ts arbitrary: w)
  case Nil
  then show ?case by simp
next
  case (Cons t ts)
  have a: "adds (\<lambda>c. sweep_policy now (t # ts) (fst c)) (trace w) (trace (remind_one e now t w))"
    by (rule adds_mono[OF remind_one_policy]) (auto intro: sweep_policy_mono)
  have b: "adds (\<lambda>c. sweep_policy now (t # ts) (fst c)) (trace (remind_one e now t w))
             (trace (remind_each e now ts (remind_one e now t w)))"
    by (rule adds_mono[OF Cons.IH]) (auto intro: sweep_policy_mono)
  from adds_trans[OF a b] show ?case by simp
qed

lemma reminderCheck_policy:
  "adds (\<lambda>c. sweep_policy now (select_tasks (PendingBefore now) (tasks w)) (fst c))
     (trace w) (trace (reminderCheck e now w))"
proof (cases "throws e w")
  case True
  then show ?thesis by (simp add: reminderCheck_def task_findMany_def logged_def)
next
  case False
  let ?ts = "select_tasks (PendingBefore now) (tasks w)"
  let ?w1 = "logged (TaskFindMany (PendingBefore now)) Returned w"
  have r: "reminderCheck e now w = remind_each e now ?ts ?w1"
    using False by (simp add: reminderCheck_def task_findMany_def)
  have "adds (\<lambda>c. sweep_policy now ?ts (fst c)) (trace ?w1) (trace (remind_each e now ?ts ?w1))"
    by (rule remind_each_policy)
  then have "adds (\<lambda>c. sweep_policy now ?ts (fst c)) (trace w) (trace (remind_each e now ?ts ?w1))"
    by (auto simp: logged_def intro: adds_from_snoc)
  with r show ?thesis by simp
qed

section \<open>The sweep writes two columns\<close>

text \<open>
  Claim C9, as stated, fails: the sweep modifies a task field other than
  \<^verbatim>\<open>lastRemind\<close>. The column \<^verbatim>\<open>updatedAt\<close> is marked \<^verbatim>\<open>@updatedAt\<close>, so the sweep's
  \<^verbatim>\<open>task.update\<close> rewrites it with the instant of the update. Task \<open>t1\<close> was last
  updated at instant 1000; after the sweep at instant 5000 its \<^verbatim>\<open>updatedAt\<close> is 5000.
\<close>

theorem sweep_rewrites_updatedAt:
  "tasks world_pending = [task1]
   \<and> updatedAt task1 = 1000
   \<and> new_calls world_pending (reminderCheck env_ok 5000 world_pending)
       = [(TaskFindMany (PendingBefore 5000), Returned),
          (TaskFindUnique ''t1'', Returned),
          (SendText ''bob@x'' (R_ReminderPrompt ''Al'' ''A'' (Some ''Fix bug'') None)
             (reminder_keyboard ''t1''), Returned),
          (TaskUpdateLastRemind ''t1'' 1805000, Returned)]
   \<and> map updatedAt (tasks (reminderCheck env_ok 5000 world_pending)) = [5000]"
  by code_simp

text \<open>
  Claim C9, amended. A reminder sweep leaves the task table with the same rows in the
  same order, each row equal to what it was in every column but \<^verbatim>\<open>lastRemind\<close> and
  \<^verbatim>\<open>updatedAt\<close> (so id, status, text, file, interval, assignee, chat, creator names and
  \<^verbatim>\<open>createdAt\<close> are unchanged, and no row is created or deleted); it leaves the users
  and the sessions alone as well. Every call it makes is its query, the lookup or the
  prompt of a selected task, or the update of a selected task's \<^verbatim>\<open>lastRemind\<close>: it never
  calls \<^verbatim>\<open>create\<close> and never writes a status.
\<close>

theorem sweep_writes_lastRemind_and_updatedAt:
  "map except_lastRemind_updatedAt (tasks (reminderCheck e now w))
     = map except_lastRemind_updatedAt (tasks w)
   \<and> length (tasks (reminderCheck e now w)) = length (tasks w)
   \<and> users (reminderCheck e now w) = users w
   \<and> redis (reminderCheck e now w) = redis w
   \<and> list_all (\<lambda>c. sweep_policy now (select_tasks (PendingBefore now) (tasks w)) (fst c))
        (new_calls w (reminderCheck e now w))"
  using reminderCheck_frame[of e now w] map_eq_imp_length_eq
    adds_new_calls[OF reminderCheck_policy[of now w e]]
  by blast

text \<open>The instance: the sweep at instant 5000 reminds of task \<open>t1\<close>, moves its
  \<^verbatim>\<open>lastRemind\<close> to \<open>5000 + 30 * 60 * 1000\<close> and its \<^verbatim>\<open>updatedAt\<close> to 5000.\<close>

theorem sweep_writes_lastRemind_and_updatedAt_witness:
  "tasks (reminderCheck env_ok 5000 world_pending)
     = [task1\<lparr>lastRemind := 1805000, updatedAt := 5000\<rparr>]
   \<and> map except_lastRemind_updatedAt (tasks (reminderCheck env_ok 5000 world_pending))
       = map except_lastRemind_updatedAt (tasks world_pending)
   \<and> users (reminderCheck env_ok 5000 world_pending) = users world_pending
   \<and> redis (reminderCheck env_ok 5000 world_pending) = redis world_pending"
proof -
  have c: "tasks (reminderCheck env_ok 5000 world_pending)
             = [task1\<lparr>lastRemind := 1805000, updatedAt := 5000\<rparr>]"
    by code_simp
  from sweep_writes_lastRemind_and_updatedAt[of env_ok 5000 world_pending] c
  show ?thesis by blast
qed

section \<open>Which session writes carry an expiry\<close>

text \<open>
  Claim C5, as stated, fails: the write that enters \<^verbatim>\<open>AWAITING_DESCRIPTION\<close> is not the
  only one with no expiry. Pressing \<^verbatim>\<open>check_user_tasks\<close> writes the session that enters
  \<^verbatim>\<open>AWAITING_USER_ID_FOR_TASKS\<close> with \<^verbatim>\<open>redis.set(chatId, value)\<close> as well.
\<close>

theorem second_write_without_expiry:
  "\<not> list_all (\<lambda>c. \<forall>k v. fst c = RedisSet k v None \<longrightarrow> step v = AWAITING_DESCRIPTION)
       (new_calls world_pending
          (snd (handleCallback env_ok 5000 (press ''check_user_tasks'') world_pending)))"
proof -
  have c: "new_calls world_pending
          (snd (handleCallback env_ok 5000 (press ''check_user_tasks'') world_pending))
     = [(RedisGet ''bob@x'', Returned),
        (RedisSet ''bob@x'' \<lparr>step = AWAITING_USER_ID_FOR_TASKS, taskData = empty_taskData\<rparr> None, Returned),
        (AnswerCallbackQuery ''q1'', Returned),
        (SendText ''bob@x'' R_AskContact [], Returned)]"
    by code_simp
  show ?thesis unfolding c by simp
qed

text \<open>
  Claim C5, amended. Both session writes of the callback handler (entering
  \<^verbatim>\<open>AWAITING_DESCRIPTION\<close> on \<^verbatim>\<open>create_task\<close> and \<^verbatim>\<open>AWAITING_USER_ID_FOR_TASKS\<close> on
  \<^verbatim>\<open>check_user_tasks\<close>) carry no expiry; both session writes of the message handler
  (entering \<^verbatim>\<open>AWAITING_USER_ID\<close> and \<^verbatim>\<open>AWAITING_TIME\<close>) carry 3600 seconds; the sweep
  writes no session. This holds for every call the activation makes, whichever call
  throws.
\<close>

theorem session_write_expiry:
  "list_all (\<lambda>c. session_write_ok a (fst c)) (new_calls w (activate e now a w))"
proof (cases a)
  case (NewMessage chat msg ev)
  have "adds (\<lambda>c. session_write_ok a (fst c)) (trace w) (trace (snd (handleMessage e now chat msg ev w)))"
    by (rule adds_mono[OF handleMessage_policy]) (auto simp: NewMessage elim: message_policy.elims)
  then show ?thesis using NewMessage by (simp add: adds_new_calls)
next
  case (CallbackQuery ev)
  have "adds (\<lambda>c. session_write_ok a (fst c)) (trace w) (trace (snd (handleCallback e now ev w)))"
    by (rule adds_mono[OF handleCallback_policy])
       (auto simp: CallbackQuery callback_handler_policy_def elim: callback_policy.elims)
  then show ?thesis using CallbackQuery by (simp add: adds_new_calls)
next
  case ReminderTick
  have "adds (\<lambda>c. session_write_ok a (fst c)) (trace w) (trace (reminderCheck e now w))"
    by (rule adds_mono[OF reminderCheck_policy]) (auto simp: ReminderTick elim: sweep_policy.elims)
  then show ?thesis using ReminderTick by (simp add: adds_new_calls)
qed


text \<open>The instance: pressing \<^verbatim>\<open>create_task\<close>.\<close>

theorem session_write_expiry_witness:
  "new_calls world_pending (activate env_ok 5000 (CallbackQuery (press ''create_task'')) world_pending)
     = [(RedisGet ''bob@x'', Returned),
        (RedisSet ''bob@x'' \<lparr>step = AWAITING_DESCRIPTION, taskData = empty_taskData\<rparr> None, Returned),
        (AnswerCallbackQuery ''q1'', Returned),
        (SendText ''bob@x'' R_AskDescription [], Returned)]
   \<and> list_all (\<lambda>c. session_write_ok (CallbackQuery (press ''create_task'')) (fst c))
        (new_calls world_pending (activate env_ok 5000 (CallbackQuery (press ''create_task'')) world_pending))"
proof -
  have c: "new_calls world_pending (activate env_ok 5000 (CallbackQuery (press ''create_task'')) world_pending)
     = [(RedisGet ''bob@x'', Returned),
        (RedisSet ''bob@x'' \<lparr>step = AWAITING_DESCRIPTION, taskData = empty_taskData\<rparr> None, Returned),
        (AnswerCallbackQuery ''q1'', Returned),
        (SendText ''bob@x'' R_AskDescription [], Returned)]"
    by code_simp
  from session_write_expiry[of "CallbackQuery (press ''create_task'')" world_pending env_ok 5000] c
  show ?thesis by blast
qed

section \<open>The callback is acknowledged, then answered\<close>

lemma callback_reply_no_gateway:
  "callback_reply e now ev w = (r, w') \<Longrightarrow>
     adds (\<lambda>c. \<not> is_gateway_call (fst c)) (trace w) (trace w')"
  by (rule adds_mono[OF callback_reply_policy]) (auto elim: callback_policy.elims)

lemma callback_reply_returns:
  "callbackData ev \<noteq> ''create_task'' \<Longrightarrow> callbackData ev \<noteq> ''check_user_tasks'' \<Longrightarrow>
     \<exists>r w'. callback_reply e now ev w = (Inr r, w')"
  by (auto simp: callback_reply_def Let_def split: list.splits prod.splits)

text \<open>
  Claim C6. Suppose the session read at the start of \<^verbatim>\<open>handleCallback\<close> returned.
  \<^item> Unless the callback is one of the two that write the session, the reply text is
    produced, whatever the repository calls do (their errors are caught).
  \<^item> Once the reply text \<open>r\<close> is produced, no gateway call has been made yet, the next
    call is \<^verbatim>\<open>answerCallbackQuery\<close> with the event's query id, and only if that call
    returned it is followed by the last call, the text \<open>r\<close> to the chat with no keyboard.
\<close>

theorem callback_acknowledged_then_answered:
  assumes "redis_get e now (cb_chatId ev) w = (Inr us, w1)"
  shows "(callbackData ev \<noteq> ''create_task'' \<and> callbackData ev \<noteq> ''check_user_tasks''
            \<longrightarrow> (\<exists>r w2. callback_reply e now ev w1 = (Inr r, w2)))
       \<and> (\<forall>r w2. callback_reply e now ev w1 = (Inr r, w2) \<longrightarrow>
            list_all (\<lambda>c. \<not> is_gateway_call (fst c)) (new_calls w w2)
          \<and> (\<exists>a s. new_calls w (snd (handleCallback e now ev w)) =
                new_calls w w2 @
                (AnswerCallbackQuery (queryId ev), a) #
                (if a = Returned then [(SendText (cb_chatId ev) r [], s)] else [])))"
proof (intro conjI allI impI)
  assume "callbackData ev \<noteq> ''create_task'' \<and> callbackData ev \<noteq> ''check_user_tasks''"
  then show "\<exists>r w2. callback_reply e now ev w1 = (Inr r, w2)"
    using callback_reply_returns by blast
next
  fix r w2
  assume cr: "callback_reply e now ev w1 = (Inr r, w2)"
  from assms have w1: "trace w1 = trace w @ [(RedisGet (cb_chatId ev), Returned)]"
    by (auto simp: redis_get_def logged_def split: if_splits)
  from callback_reply_no_gateway[OF cr] obtain xs where
    xs: "trace w2 = trace w1 @ xs" "list_all (\<lambda>c. \<not> is_gateway_call (fst c)) xs"
    by (auto simp: adds_def)
  from w1 xs have n2: "new_calls w w2 = (RedisGet (cb_chatId ev), Returned) # xs"
    by (simp add: new_calls_def)
  show "list_all (\<lambda>c. \<not> is_gateway_call (fst c)) (new_calls w w2)"
    using n2 xs by simp
  show "\<exists>a s. new_calls w (snd (handleCallback e now ev w)) =
                new_calls w w2 @
                (AnswerCallbackQuery (queryId ev), a) #
                (if a = Returned then [(SendText (cb_chatId ev) r [], s)] else [])"
    using assms cr w1 xs n2
    by (auto simp: handleCallback_def answerCallbackQuery_def sendText_def gateway_def logged_def
          new_calls_def)
qed

text \<open>The instance: the lookup of the task throws; the query is acknowledged and the
  error reply is sent.\<close>

theorem callback_acknowledged_then_answered_witness:
  "redis_get env_second_fails 5000 (cb_chatId (press ''approve_t1'')) world_pending
     = (Inr None, logged (RedisGet ''bob@x'') Returned world_pending)
   \<and> (\<exists>r w2. callback_reply env_second_fails 5000 (press ''approve_t1'')
                 (logged (RedisGet ''bob@x'') Returned world_pending) = (Inr r, w2))
   \<and> new_calls world_pending
        (snd (handleCallback env_second_fails 5000 (press ''approve_t1'') world_pending))
       = [(RedisGet ''bob@x'', Returned), (TaskFindUnique ''t1'', Threw),
          (AnswerCallbackQuery ''q1'', Returned),
          (SendText ''bob@x'' R_TaskProcessError [], Returned)]"
proof -
  have h: "redis_get env_second_fails 5000 (cb_chatId (press ''approve_t1'')) world_pending
     = (Inr None, logged (RedisGet ''bob@x'') Returned world_pending)"
    by (simp add: redis_get_def throws_def unexpired_def sample_defs)
  have n: "callbackData (press ''approve_t1'') \<noteq> ''create_task''
           \<and> callbackData (press ''approve_t1'') \<noteq> ''check_user_tasks''"
    by (simp add: press_def)
  have c: "new_calls world_pending
        (snd (handleCallback env_second_fails 5000 (press ''approve_t1'') world_pending))
       = [(RedisGet ''bob@x'', Returned), (TaskFindUnique ''t1'', Threw),
          (AnswerCallbackQuery ''q1'', Returned),
          (SendText ''bob@x'' R_TaskProcessError [], Returned)]"
    by code_simp
  from callback_acknowledged_then_answered[OF h] h n c
  show ?thesis by blast
qed

section \<open>Parsing the contact\<close>

lemma takeWhile_snoc_not: "\<not> P x \<Longrightarrow> takeWhile P (xs @ [x]) = takeWhile P xs"
  by (induction xs) auto

lemma takeWhile_snoc_yes:
  "P x \<Longrightarrow> takeWhile P (xs @ [x]) = (if \<forall>y \<in> set xs. P y then xs @ [x] else takeWhile P xs)"
  by (induction xs) auto

lemma js_split_single: "js_split sep s = [seg] \<Longrightarrow> sep \<notin> set s \<and> seg = s"
proof (induction s arbitrary: seg)
  case Nil
  then show ?case by simp
next
  case (Cons c cs)
  show ?case
  proof (cases "c = sep")
    case True
    with Cons.prems js_split_nonempty[of sep cs] show ?thesis by simp
  next
    case False
    obtain x xs where x: "js_split sep cs = x # xs"
      using js_split_nonempty[of sep cs] by (cases "js_split sep cs") auto
    with Cons.prems False have "xs = []" "seg = c # x" by auto
    with x Cons.IH[of x] False show ?thesis by auto
  qed
qed

lemma last_js_split:
  "last (js_split sep s) = rev (takeWhile (\<lambda>c. c \<noteq> sep) (rev s))"
proof (induction s)
  case Nil
  then show ?case by simp
next
  case (Cons c cs)
  show ?case
  proof (cases "c = sep")
    case True
    then show ?thesis
      using Cons.IH js_split_nonempty[of sep cs] by (simp add: takeWhile_snoc_not)
  next
    case False
    obtain x xs where x: "js_split sep cs = x # xs"
      using js_split_nonempty[of sep cs] by (cases "js_split sep cs") auto
    show ?thesis
    proof (cases "xs = []")
      case True
      with x js_split_single[of sep cs x] have "sep \<notin> set cs" "x = cs" by auto
      with x True False show ?thesis by (simp add: takeWhile_snoc_yes)
    next
      case xs: False
      have "sep \<in> set cs"
      proof (rule ccontr)
        assume "sep \<notin> set cs"
        then have "js_split sep cs = [cs]" by (rule js_split_no_sep)
        with x xs show False by simp
      qed
      then have "\<not> (\<forall>y \<in> set (rev cs). y \<noteq> sep)" by auto
      with x xs False Cons.IH show ?thesis by (simp add: takeWhile_snoc_yes)
    qed
  qed
qed

lemma report_entries_grows:
  "report_entries e ts w = (r, w') \<Longrightarrow> \<exists>xs. trace w' = trace w @ xs"
  using report_entries_adds[where Q = "\<lambda>c. True", of e ts w r w'] by (auto simp: adds_def)

lemma bad_contact_reply:
  assumes "step sess = AWAITING_USER_ID \<or> step sess = AWAITING_USER_ID_FOR_TASKS"
    and "contact_of text = [] \<or> CHR ''@'' \<notin> set (contact_of text)"
  shows "message_step e now chat text ev sess w = (Inr R_BadLink, w)"
  using assms
  by (auto simp: message_step_def step_user_id_def step_user_id_for_tasks_def valid_contact_def
        str_includes_def Let_def)

lemma good_contact_lookup:
  assumes "step sess = AWAITING_USER_ID \<or> step sess = AWAITING_USER_ID_FOR_TASKS"
    and "contact_of text \<noteq> []" and "CHR ''@'' \<in> set (contact_of text)"
    and "message_step e now chat text ev sess w = (r, w')"
  shows "\<exists>out rest. trace w' = trace w @ (UserFindUnique (contact_of text), out) # rest"
  using assms
  by (auto simp: message_step_def step_user_id_def step_user_id_for_tasks_def valid_contact_def
        str_includes_def Let_def prim_defs
      split: prod.splits sum.splits option.splits if_splits
      dest!: report_entries_grows)

lemma good_contact_handle:
  assumes "unexpired now (redis w chat) = Some sess"
    and "step sess = AWAITING_USER_ID \<or> step sess = AWAITING_USER_ID_FOR_TASKS"
    and "contact_of text \<noteq> []" and "CHR ''@'' \<in> set (contact_of text)"
    and "\<not> fails e (length (trace w))"
  shows "\<exists>out rest. new_calls w (snd (handleMessage e now chat text ev w)) =
           (RedisGet chat, Returned) # (UserFindUnique (contact_of text), out) # rest"
proof -
  let ?w1 = "logged (RedisGet chat) Returned w"
  obtain r w2 where m: "message_step e now chat text ev sess ?w1 = (r, w2)"
    by (cases "message_step e now chat text ev sess ?w1")
  from good_contact_lookup[OF assms(2,3,4) m] obtain out rest where
    t: "trace w2 = trace ?w1 @ (UserFindUnique (contact_of text), out) # rest" by blast
  show ?thesis
    using assms(1,5) m t
    by (auto simp: handleMessage_def redis_get_def throws_def sendText_def gateway_def logged_def
          new_calls_def split: sum.splits)
qed

text \<open>
  Claim C7. In the steps \<^verbatim>\<open>AWAITING_USER_ID\<close> and \<^verbatim>\<open>AWAITING_USER_ID_FOR_TASKS\<close> the contact
  identifier is what follows the last \<^verbatim>\<open>/\<close> of the text (the whole text when it has
  none); the text \<^verbatim>\<open>https://host/path/user@example\<close> gives \<^verbatim>\<open>user@example\<close>.
  \<^item> When the identifier is empty or has no \<^verbatim>\<open>@\<close>, the handler leaves sessions, tasks
    and users as they are, and when the session read returned its calls are that
    read and the "send a contact" reply, nothing else.
  \<^item> Otherwise the call after the session read is the lookup of the user with that
    identifier.
\<close>

theorem contact_parsing:
  "contact_of ''https://host/path/user@example'' = ''user@example''
   \<and> contact_of text = rev (takeWhile (\<lambda>c. c \<noteq> CHR ''/'') (rev text))
   \<and> (unexpired now (redis w chat) = Some sess
        \<and> (step sess = AWAITING_USER_ID \<or> step sess = AWAITING_USER_ID_FOR_TASKS)
        \<and> (contact_of text = [] \<or> CHR ''@'' \<notin> set (contact_of text))
      \<longrightarrow> redis (snd (handleMessage e now chat text ev w)) = redis w
        \<and> tasks (snd (handleMessage e now chat text ev w)) = tasks w
        \<and> users (snd (handleMessage e now chat text ev w)) = users w
        \<and> (\<not> fails e (length (trace w)) \<longrightarrow>
             (\<exists>out. new_calls w (snd (handleMessage e now chat text ev w)) =
                [(RedisGet chat, Returned), (SendText chat R_BadLink [], out)])))
   \<and> (unexpired now (redis w chat) = Some sess
        \<and> (step sess = AWAITING_USER_ID \<or> step sess = AWAITING_USER_ID_FOR_TASKS)
        \<and> contact_of text \<noteq> [] \<and> CHR ''@'' \<in> set (contact_of text)
        \<and> \<not> fails e (length (trace w))
      \<longrightarrow> (\<exists>out rest. new_calls w (snd (handleMessage e now chat text ev w)) =
             (RedisGet chat, Returned) # (UserFindUnique (contact_of text), out) # rest))"
proof (intro conjI impI)
  show "contact_of ''https://host/path/user@example'' = ''user@example''"
    by (simp add: contact_of_def)
  show "contact_of text = rev (takeWhile (\<lambda>c. c \<noteq> CHR ''/'') (rev text))"
    by (simp add: contact_of_def last_js_split)
next
  assume h: "unexpired now (redis w chat) = Some sess
        \<and> (step sess = AWAITING_USER_ID \<or> step sess = AWAITING_USER_ID_FOR_TASKS)
        \<and> (contact_of text = [] \<or> CHR ''@'' \<notin> set (contact_of text))"
  then have m: "message_step e now chat text ev sess w1 = (Inr R_BadLink, w1)" for w1
    using bad_contact_reply by blast
  show "redis (snd (handleMessage e now chat text ev w)) = redis w"
    using h by (simp add: handleMessage_def redis_get_def m sendText_def gateway_def logged_def)
  show "tasks (snd (handleMessage e now chat text ev w)) = tasks w"
    using h by (simp add: handleMessage_def redis_get_def m sendText_def gateway_def logged_def)
  show "users (snd (handleMessage e now chat text ev w)) = users w"
    using h by (simp add: handleMessage_def redis_get_def m sendText_def gateway_def logged_def)
  assume "\<not> fails e (length (trace w))"
  then show "\<exists>out. new_calls w (snd (handleMessage e now chat text ev w)) =
                [(RedisGet chat, Returned), (SendText chat R_BadLink [], out)]"
    using h
    by (simp add: handleMessage_def redis_get_def m sendText_def gateway_def logged_def throws_def new_calls_def)
next
  assume "unexpired now (redis w chat) = Some sess
        \<and> (step sess = AWAITING_USER_ID \<or> step sess = AWAITING_USER_ID_FOR_TASKS)
        \<and> contact_of text \<noteq> [] \<and> CHR ''@'' \<in> set (contact_of text)
        \<and> \<not> fails e (length (trace w))"
  then show "\<exists>out rest. new_calls w (snd (handleMessage e now chat text ev w)) =
             (RedisGet chat, Returned) # (UserFindUnique (contact_of text), out) # rest"
    using good_contact_handle by blast
qed

text \<open>The instance: Al, asked for a contact, sends a link whose last segment has no
  \<^verbatim>\<open>@\<close>, and then Bob's contact.\<close>

theorem contact_parsing_witness:
  "unexpired 5000 (redis (world_in_step AWAITING_USER_ID draft_described) ''al@x'')
     = Some \<lparr>step = AWAITING_USER_ID, taskData = draft_described\<rparr>
   \<and> contact_of ''https://host/path/nobody'' = ''nobody''
   \<and> redis (snd (handleMessage env_ok 5000 ''al@x'' ''https://host/path/nobody'' from_al
                  (world_in_step AWAITING_USER_ID draft_described)))
       = redis (world_in_step AWAITING_USER_ID draft_described)
   \<and> new_calls (world_in_step AWAITING_USER_ID draft_described)
        (snd (handleMessage env_ok 5000 ''al@x'' ''https://host/path/nobody'' from_al
                (world_in_step AWAITING_USER_ID draft_described)))
       = [(RedisGet ''al@x'', Returned), (SendText ''al@x'' R_BadLink [], Returned)]
   \<and> new_calls (world_in_step AWAITING_USER_ID draft_described)
        (snd (handleMessage env_ok 5000 ''al@x'' ''https://host/path/bob@x'' from_al
                (world_in_step AWAITING_USER_ID draft_described)))
       = [(RedisGet ''al@x'', Returned), (UserFindUnique ''bob@x'', Returned),
          (RedisSet ''al@x'' \<lparr>step = AWAITING_TIME, taskData = draft_assigned\<rparr> (Some 3600),
           Returned),
          (SendText ''al@x'' R_AskInterval [], Returned)]"
proof -
  let ?w = "world_in_step AWAITING_USER_ID draft_described"
  have v: "new_calls ?w (snd (handleMessage env_ok 5000 ''al@x'' ''https://host/path/bob@x'' from_al ?w))
       = [(RedisGet ''al@x'', Returned), (UserFindUnique ''bob@x'', Returned),
          (RedisSet ''al@x'' \<lparr>step = AWAITING_TIME, taskData = draft_assigned\<rparr> (Some 3600),
           Returned),
          (SendText ''al@x'' R_AskInterval [], Returned)]"
    by code_simp
  have h1: "unexpired 5000 (redis ?w ''al@x'')
     = Some \<lparr>step = AWAITING_USER_ID, taskData = draft_described\<rparr>"
    by (simp add: world_in_step_def unexpired_def)
  have h2: "contact_of ''https://host/path/nobody'' = ''nobody''"
    by code_simp
  have h3: "step \<lparr>step = AWAITING_USER_ID, taskData = draft_described\<rparr> = AWAITING_USER_ID"
    by simp
  have h4: "CHR ''@'' \<notin> set ''nobody''"
    by simp
  have c: "new_calls ?w (snd (handleMessage env_ok 5000 ''al@x'' ''https://host/path/nobody'' from_al ?w))
       = [(RedisGet ''al@x'', Returned), (SendText ''al@x'' R_BadLink [], Returned)]"
    by code_simp
  from contact_parsing[of "''https://host/path/nobody''" 5000 ?w "''al@x''"
        "\<lparr>step = AWAITING_USER_ID, taskData = draft_described\<rparr>" env_ok from_al]
    h1 h2 h3 h4 c v
  show ?thesis by metis
qed

section \<open>Parsing the reminder interval\<close>

lemma digit_not_space: "isDigit c \<Longrightarrow> \<not> isWhiteSpace c"
  by (auto simp: isDigit_def isWhiteSpace_def)

lemma digit_not_sign: "isDigit c \<Longrightarrow> c \<noteq> CHR ''-'' \<and> c \<noteq> CHR ''+''"
  by (auto simp: isDigit_def)

lemma parseInt_digits:
  assumes "list_all isWhiteSpace ws" and "ds \<noteq> []" and "list_all isDigit ds"
    and "rest = [] \<or> \<not> isDigit (hd rest)"
  shows "parseInt (ws @ ds @ rest) = Some (digits_value ds)"
proof -
  obtain d ds' where ds: "ds = d # ds'" using assms(2) by (cases ds) auto
  with assms(3) have d: "isDigit d" by simp
  have t: "dropWhile isWhiteSpace (ws @ ds @ rest) = ds @ rest"
    using assms(1) d ds by (simp add: dropWhile_append list_all_iff digit_not_space)
  have tw: "takeWhile isDigit (ds @ rest) = ds"
  proof -
    have "takeWhile isDigit rest = []"
      using assms(4) by (cases rest) auto
    with assms(3) show ?thesis by (simp add: takeWhile_append list_all_iff)
  qed
  show ?thesis
    unfolding parseInt_def t
    using tw ds d digit_not_sign[OF d] by (simp add: Let_def)
qed

lemma step_time_rejects:
  assumes "parseInt text = None \<or> (\<exists>n. parseInt text = Some n \<and> n \<le> 0)"
  shows "step_time e now chat text td w = (Inr R_BadInterval, w)"
  using assms by (auto simp: step_time_def)

lemma step_time_creates:
  assumes "parseInt text = Some n" and "0 < n" and "n \<le> 2147483647"
    and "\<not> fails e (length (trace w))"
    and "userId td = Some u" and "td_firstName td = Some f" and "td_lastName td = Some l"
    and "lookup_task (uuid e (length (trace w))) (tasks w) = None"
  shows "\<exists>d. step_time e now chat text td w =
           (if fails e (Suc (length (trace w)))
            then (Inl StoreError,
                  w\<lparr>trace := trace w @ [(TaskCreate d, Returned), (RedisDel chat, Threw)],
                    tasks := tasks w @
                      [\<lparr>task_id = uuid e (length (trace w)), userToId = u, chatId = chat,
                        creator_firstName = f, creator_lastName = l,
                        task_text = description td, fileCaption = td_fileCaption td,
                        fileId = td_fileId td, status = ''PENDING'',
                        remindInterval = n, lastRemind = now, createdAt = now,
                        updatedAt = now\<rparr>]\<rparr>)
            else (Inr R_TaskCreated,
                  w\<lparr>trace := trace w @ [(TaskCreate d, Returned), (RedisDel chat, Returned)],
                    tasks := tasks w @
                      [\<lparr>task_id = uuid e (length (trace w)), userToId = u, chatId = chat,
                        creator_firstName = f, creator_lastName = l,
                        task_text = description td, fileCaption = td_fileCaption td,
                        fileId = td_fileId td, status = ''PENDING'',
                        remindInterval = n, lastRemind = now, createdAt = now,
                        updatedAt = now\<rparr>],
                    redis := (redis w)(chat := None)\<rparr>))"
  using assms
  by (auto simp: step_time_def task_create_def new_row_def fits_Int_def throws_def logged_def
        redis_del_def TASK_STATUS_PENDING_def intro!: exI world.equality)

lemma step_time_too_large:
  assumes "parseInt text = Some n" and "2147483647 < n"
  shows "\<exists>d. step_time e now chat text td w =
           (Inr R_TaskCreateError, w\<lparr>trace := trace w @ [(TaskCreate d, Threw)]\<rparr>)"
  using assms
  by (auto simp: step_time_def task_create_def new_row_def fits_Int_def logged_def
      split: option.splits intro!: exI world.equality)

text \<open>
  Claim C8, as stated, fails: a text that is not a number is accepted when it starts
  with one. In the step \<^verbatim>\<open>AWAITING_TIME\<close> the text \<^verbatim>\<open>30abc\<close> creates a task with a
  reminder interval of 30 minutes and the reply is the success message.
\<close>

theorem interval_accepts_trailing_text:
  "\<not> spec_integer_text ''30abc''
   \<and> new_calls (world_in_step AWAITING_TIME draft_assigned)
        (snd (handleMessage env_ok 5000 ''al@x'' ''30abc'' from_al
                (world_in_step AWAITING_TIME draft_assigned)))
       = [(RedisGet ''al@x'', Returned),
          (TaskCreate \<lparr>new_userToId = Some ''bob@x'', new_chatId = ''al@x'',
                       new_firstName = Some ''Al'', new_lastName = Some ''A'',
                       new_text = Some ''Fix bug'', new_fileId = None, new_fileCaption = None,
                       new_status = ''PENDING'', new_remindInterval = 30,
                       new_lastRemind = 5000\<rparr>, Returned),
          (RedisDel ''al@x'', Returned),
          (SendText ''al@x'' R_TaskCreated [], Returned)]
   \<and> map remindInterval
        (tasks (snd (handleMessage env_ok 5000 ''al@x'' ''30abc'' from_al
                       (world_in_step AWAITING_TIME draft_assigned)))) = [30]"
  by code_simp

text \<open>
  Claim C8, amended. In the step \<^verbatim>\<open>AWAITING_TIME\<close> the text is read as
  \<^verbatim>\<open>parseInt(text, 10)\<close> reads it: white space is skipped, then a sign, then the longest
  run of decimal digits, and the rest of the text is ignored. Suppose the session read
  returned.
  \<^item> When no digit is found there, or the number is not positive, sessions and tasks
    are left as they are and the calls are the session read and the format-error
    reply.
  \<^item> When the number \<open>n\<close> is positive, fits the \<^verbatim>\<open>Int\<close> column (at most 2147483647) and
    the create succeeds (the call does not throw, the task data name an assignee and
    the creator, the generated id is new), one row is added: \<^verbatim>\<open>PENDING\<close>,
    \<^verbatim>\<open>remindInterval\<close> \<open>n\<close>, \<^verbatim>\<open>lastRemind\<close> the current instant. Then \<^verbatim>\<open>redis.del\<close> is
    called: if it returns the session is gone and the last call is the success reply;
    if it throws the handler throws, the session store is as it was and no reply is
    sent.
  \<^item> When the number is above 2147483647 the create throws: sessions and tasks are
    left as they are and the reply is the create-error message.
  \<^item> A text made of white space, then digits, then anything that does not start with
    a digit, is read as the number the digits spell.
\<close>

theorem interval_parsing:
  assumes "unexpired now (redis w chat) = Some sess" and "step sess = AWAITING_TIME"
    and "\<not> fails e (length (trace w))"
  shows "(parseInt text = None \<or> (\<exists>n. parseInt text = Some n \<and> n \<le> 0) \<longrightarrow>
            redis (snd (handleMessage e now chat text ev w)) = redis w
          \<and> tasks (snd (handleMessage e now chat text ev w)) = tasks w
          \<and> (\<exists>out. new_calls w (snd (handleMessage e now chat text ev w)) =
                [(RedisGet chat, Returned), (SendText chat R_BadInterval [], out)]))
       \<and> (\<forall>n u f l. parseInt text = Some n \<and> 0 < n \<and> n \<le> 2147483647
            \<and> \<not> fails e (Suc (length (trace w)))
            \<and> userId (taskData sess) = Some u \<and> td_firstName (taskData sess) = Some f
            \<and> td_lastName (taskData sess) = Some l
            \<and> lookup_task (uuid e (Suc (length (trace w)))) (tasks w) = None \<longrightarrow>
            tasks (snd (handleMessage e now chat text ev w)) =
              tasks w @ [\<lparr>task_id = uuid e (Suc (length (trace w))), userToId = u, chatId = chat,
                          creator_firstName = f, creator_lastName = l,
                          task_text = description (taskData sess),
                          fileCaption = td_fileCaption (taskData sess),
                          fileId = td_fileId (taskData sess), status = ''PENDING'',
                          remindInterval = n, lastRemind = now, createdAt = now,
                          updatedAt = now\<rparr>]
          \<and> (\<not> fails e (Suc (Suc (length (trace w)))) \<longrightarrow>
               redis (snd (handleMessage e now chat text ev w)) = (redis w)(chat := None)
             \<and> (\<exists>d out. new_calls w (snd (handleMessage e now chat text ev w)) =
                  [(RedisGet chat, Returned), (TaskCreate d, Returned),
                   (RedisDel chat, Returned), (SendText chat R_TaskCreated [], out)]))
          \<and> (fails e (Suc (Suc (length (trace w)))) \<longrightarrow>
               redis (snd (handleMessage e now chat text ev w)) = redis w
             \<and> fst (handleMessage e now chat text ev w) = Inl StoreError
             \<and> (\<exists>d. new_calls w (snd (handleMessage e now chat text ev w)) =
                  [(RedisGet chat, Returned), (TaskCreate d, Returned),
                   (RedisDel chat, Threw)])))
       \<and> (\<forall>n. parseInt text = Some n \<and> 2147483647 < n \<longrightarrow>
            redis (snd (handleMessage e now chat text ev w)) = redis w
          \<and> tasks (snd (handleMessage e now chat text ev w)) = tasks w
          \<and> (\<exists>d out. new_calls w (snd (handleMessage e now chat text ev w)) =
                [(RedisGet chat, Returned), (TaskCreate d, Threw),
                 (SendText chat R_TaskCreateError [], out)]))
       \<and> (\<forall>ws ds rest. list_all isWhiteSpace ws \<and> ds \<noteq> [] \<and> list_all isDigit ds
            \<and> (rest = [] \<or> \<not> isDigit (hd rest)) \<and> text = ws @ ds @ rest \<longrightarrow>
            parseInt text = Some (digits_value ds))"
proof (intro conjI allI impI)
  let ?w1 = "w\<lparr>trace := trace w @ [(RedisGet chat, Returned)]\<rparr>"
  have g: "redis_get e now chat w = (Inr (Some sess), ?w1)"
    using assms by (simp add: redis_get_def throws_def logged_def)
  have ms: "message_step e now chat text ev sess ?w1
              = step_time e now chat text (taskData sess) ?w1"
    using assms(2) by (simp add: message_step_def)
  {
    assume "parseInt text = None \<or> (\<exists>n. parseInt text = Some n \<and> n \<le> 0)"
    then have m: "message_step e now chat text ev sess ?w1 = (Inr R_BadInterval, ?w1)"
      unfolding ms using step_time_rejects by simp
    show "redis (snd (handleMessage e now chat text ev w)) = redis w"
      by (simp add: handleMessage_def g m sendText_def gateway_def logged_def)
    show "tasks (snd (handleMessage e now chat text ev w)) = tasks w"
      by (simp add: handleMessage_def g m sendText_def gateway_def logged_def)
    show "\<exists>out. new_calls w (snd (handleMessage e now chat text ev w)) =
                [(RedisGet chat, Returned), (SendText chat R_BadInterval [], out)]"
      by (simp add: handleMessage_def g m sendText_def gateway_def logged_def new_calls_def)
  }
  {
    fix n u f l
    assume h: "parseInt text = Some n \<and> 0 < n \<and> n \<le> 2147483647
            \<and> \<not> fails e (Suc (length (trace w)))
            \<and> userId (taskData sess) = Some u \<and> td_firstName (taskData sess) = Some f
            \<and> td_lastName (taskData sess) = Some l
            \<and> lookup_task (uuid e (Suc (length (trace w)))) (tasks w) = None"
    have len: "length (trace ?w1) = Suc (length (trace w))" by simp
    have tk: "tasks ?w1 = tasks w" by simp
    from h step_time_creates[of "text" n e ?w1 "taskData sess" u f l now chat, unfolded len tk]
    obtain d where
      sc: "step_time e now chat text (taskData sess) ?w1 =
           (if fails e (Suc (Suc (length (trace w))))
            then (Inl StoreError,
                  ?w1\<lparr>trace := trace ?w1 @ [(TaskCreate d, Returned), (RedisDel chat, Threw)],
                    tasks := tasks w @
                      [\<lparr>task_id = uuid e (Suc (length (trace w))), userToId = u, chatId = chat,
                        creator_firstName = f, creator_lastName = l,
                        task_text = description (taskData sess),
                        fileCaption = td_fileCaption (taskData sess),
                        fileId = td_fileId (taskData sess), status = ''PENDING'',
                        remindInterval = n, lastRemind = now, createdAt = now,
                        updatedAt = now\<rparr>]\<rparr>)
            else (Inr R_TaskCreated,
                  ?w1\<lparr>trace := trace ?w1 @ [(TaskCreate d, Returned), (RedisDel chat, Returned)],
                    tasks := tasks w @
                      [\<lparr>task_id = uuid e (Suc (length (trace w))), userToId = u, chatId = chat,
                        creator_firstName = f, creator_lastName = l,
                        task_text = description (taskData sess),
                        fileCaption = td_fileCaption (taskData sess),
                        fileId = td_fileId (taskData sess), status = ''PENDING'',
                        remindInterval = n, lastRemind = now, createdAt = now,
                        updatedAt = now\<rparr>],
                    redis := (redis ?w1)(chat := None)\<rparr>))"
      by auto
    show "tasks (snd (handleMessage e now chat text ev w)) =
              tasks w @ [\<lparr>task_id = uuid e (Suc (length (trace w))), userToId = u, chatId = chat,
                          creator_firstName = f, creator_lastName = l,
                          task_text = description (taskData sess),
                          fileCaption = td_fileCaption (taskData sess),
                          fileId = td_fileId (taskData sess), status = ''PENDING'',
                          remindInterval = n, lastRemind = now, createdAt = now,
                          updatedAt = now\<rparr>]"
      by (simp add: handleMessage_def g ms sc sendText_def gateway_def logged_def)
    {
      assume "\<not> fails e (Suc (Suc (length (trace w))))"
      then show "redis (snd (handleMessage e now chat text ev w)) = (redis w)(chat := None)"
        by (simp add: handleMessage_def g ms sc sendText_def gateway_def logged_def)
    }
    {
      assume "\<not> fails e (Suc (Suc (length (trace w))))"
      then show "\<exists>d out. new_calls w (snd (handleMessage e now chat text ev w)) =
                  [(RedisGet chat, Returned), (TaskCreate d, Returned),
                   (RedisDel chat, Returned), (SendText chat R_TaskCreated [], out)]"
        by (simp add: handleMessage_def g ms sc sendText_def gateway_def logged_def new_calls_def)
    }
    {
      assume "fails e (Suc (Suc (length (trace w))))"
      then show "redis (snd (handleMessage e now chat text ev w)) = redis w"
        by (simp add: handleMessage_def g ms sc)
    }
    {
      assume "fails e (Suc (Suc (length (trace w))))"
      then show "fst (handleMessage e now chat text ev w) = Inl StoreError"
        by (simp add: handleMessage_def g ms sc)
    }
    {
      assume "fails e (Suc (Suc (length (trace w))))"
      then show "\<exists>d. new_calls w (snd (handleMessage e now chat text ev w)) =
                  [(RedisGet chat, Returned), (TaskCreate d, Returned),
                   (RedisDel chat, Threw)]"
        by (simp add: handleMessage_def g ms sc new_calls_def)
    }
  }
  {
    fix n
    assume "parseInt text = Some n \<and> 2147483647 < n"
    with step_time_too_large[of "text" n e now chat "taskData sess" ?w1]
    obtain d where
      m: "message_step e now chat text ev sess ?w1 =
            (Inr R_TaskCreateError, ?w1\<lparr>trace := trace ?w1 @ [(TaskCreate d, Threw)]\<rparr>)"
      unfolding ms by auto
    show "redis (snd (handleMessage e now chat text ev w)) = redis w"
      by (simp add: handleMessage_def g m sendText_def gateway_def logged_def)
    show "tasks (snd (handleMessage e now chat text ev w)) = tasks w"
      by (simp add: handleMessage_def g m sendText_def gateway_def logged_def)
    show "\<exists>d out. new_calls w (snd (handleMessage e now chat text ev w)) =
                [(RedisGet chat, Returned), (TaskCreate d, Threw),
                 (SendText chat R_TaskCreateError [], out)]"
      by (simp add: handleMessage_def g m sendText_def gateway_def logged_def new_calls_def)
  }
  {
    fix ws ds rest
    assume "list_all isWhiteSpace ws \<and> ds \<noteq> [] \<and> list_all isDigit ds
            \<and> (rest = [] \<or> \<not> isDigit (hd rest)) \<and> text = ws @ ds @ rest"
    then show "parseInt text = Some (digits_value ds)"
      using parseInt_digits by blast
  }
qed

text \<open>
  The instance: Al answers \<^verbatim>\<open> 45 min\<close> and the task is created with an interval of 45.
  The answers \<^verbatim>\<open>-5\<close> and \<^verbatim>\<open>soon\<close> would be refused as badly formed, and the answer
  \<^verbatim>\<open>2147483648\<close> by the repository.
\<close>

theorem interval_parsing_witness:
  "unexpired 5000 (redis (world_in_step AWAITING_TIME draft_assigned) ''al@x'')
     = Some \<lparr>step = AWAITING_TIME, taskData = draft_assigned\<rparr>
   \<and> \<not> fails env_ok (length (trace (world_in_step AWAITING_TIME draft_assigned)))
   \<and> parseInt '' 45 min'' = Some 45
   \<and> redis (snd (handleMessage env_ok 5000 ''al@x'' '' 45 min'' from_al
                  (world_in_step AWAITING_TIME draft_assigned)))
       = (redis (world_in_step AWAITING_TIME draft_assigned))(''al@x'' := None)
   \<and> map remindInterval
        (tasks (snd (handleMessage env_ok 5000 ''al@x'' '' 45 min'' from_al
                       (world_in_step AWAITING_TIME draft_assigned)))) = [45]
   \<and> parseInt ''-5'' = Some (- 5) \<and> parseInt ''soon'' = None
   \<and> new_calls (world_in_step AWAITING_TIME draft_assigned)
        (snd (handleMessage env_ok 5000 ''al@x'' ''soon'' from_al
                (world_in_step AWAITING_TIME draft_assigned)))
       = [(RedisGet ''al@x'', Returned), (SendText ''al@x'' R_BadInterval [], Returned)]
   \<and> map (snd) (new_calls (world_in_step AWAITING_TIME draft_assigned)
        (snd (handleMessage env_ok 5000 ''al@x'' ''2147483648'' from_al
                (world_in_step AWAITING_TIME draft_assigned))))
       = [Returned, Threw, Returned]
   \<and> last (new_calls (world_in_step AWAITING_TIME draft_assigned)
        (snd (handleMessage env_ok 5000 ''al@x'' ''2147483648'' from_al
                (world_in_step AWAITING_TIME draft_assigned))))
       = (SendText ''al@x'' R_TaskCreateError [], Returned)"
proof -
  have q: "parseInt ''-5'' = Some (- 5) \<and> parseInt ''soon'' = None
   \<and> new_calls (world_in_step AWAITING_TIME draft_assigned)
        (snd (handleMessage env_ok 5000 ''al@x'' ''soon'' from_al
                (world_in_step AWAITING_TIME draft_assigned)))
       = [(RedisGet ''al@x'', Returned), (SendText ''al@x'' R_BadInterval [], Returned)]
   \<and> map (snd) (new_calls (world_in_step AWAITING_TIME draft_assigned)
        (snd (handleMessage env_ok 5000 ''al@x'' ''2147483648'' from_al
                (world_in_step AWAITING_TIME draft_assigned))))
       = [Returned, Threw, Returned]
   \<and> last (new_calls (world_in_step AWAITING_TIME draft_assigned)
        (snd (handleMessage env_ok 5000 ''al@x'' ''2147483648'' from_al
                (world_in_step AWAITING_TIME draft_assigned))))
       = (SendText ''al@x'' R_TaskCreateError [], Returned)"
    by code_simp
  let ?w = "world_in_step AWAITING_TIME draft_assigned"
  let ?s = "\<lparr>step = AWAITING_TIME, taskData = draft_assigned\<rparr>"
  have h1: "unexpired 5000 (redis ?w ''al@x'') = Some ?s"
    by (simp add: world_in_step_def unexpired_def)
  have h2: "step ?s = AWAITING_TIME" by simp
  have h3: "\<not> fails env_ok (length (trace ?w))" by (simp add: env_ok_def)
  have p: "parseInt '' 45 min'' = Some 45" by code_simp
  have b: "parseInt '' 45 min'' = Some 45 \<and> (0::int) < 45 \<and> (45::int) \<le> 2147483647
            \<and> \<not> fails env_ok (Suc (length (trace ?w)))
            \<and> userId (taskData ?s) = Some ''bob@x'' \<and> td_firstName (taskData ?s) = Some ''Al''
            \<and> td_lastName (taskData ?s) = Some ''A''
            \<and> lookup_task (uuid env_ok (Suc (length (trace ?w)))) (tasks ?w) = None"
    using p by (simp add: env_ok_def draft_assigned_def draft_described_def world_in_step_def
        lookup_task_def)
  have d: "\<not> fails env_ok (Suc (Suc (length (trace ?w))))" by (simp add: env_ok_def)
  have c: "map remindInterval
        (tasks (snd (handleMessage env_ok 5000 ''al@x'' '' 45 min'' from_al ?w))) = [45]"
    by code_simp
  note T = interval_parsing[OF h1 h2 h3, of "'' 45 min''" from_al]
  from T b d have "redis (snd (handleMessage env_ok 5000 ''al@x'' '' 45 min'' from_al ?w))
       = (redis ?w)(''al@x'' := None)"
    by blast
  with h1 h3 p c q show ?thesis by blast
qed

section \<open>A repository failure in a session step\<close>

lemma report_entries_summary:
  "report_entries e ts w = (r, w') \<Longrightarrow>
     tasks w' = tasks w \<and> users w' = users w \<and> redis w' = redis w
     \<and> (\<exists>xs. trace w' = trace w @ xs \<and> (\<not> isl r \<longrightarrow> (\<forall>c. (c, Threw) \<notin> set xs)))"
proof (induction ts arbitrary: w r w')
  case Nil
  then show ?case by simp
next
  case (Cons t ts)
  show ?case
  proof (cases "throws e w")
    case True
    with Cons.prems show ?thesis
      by (auto simp: user_findUnique_def logged_def)
  next
    case False
    let ?w1 = "w\<lparr>trace := trace w @ [(UserFindUnique (userToId t), Returned)]\<rparr>"
    obtain r2 w2 where r2: "report_entries e ts ?w1 = (r2, w2)"
      by (cases "report_entries e ts ?w1")
    from Cons.prems False r2 have w': "w' = w2" and r: "isl r = isl r2"
      by (auto simp: user_findUnique_def logged_def split: sum.splits)
    from Cons.IH[OF r2] show ?thesis
      unfolding w' r by auto
  qed
qed

lemma message_step_failure:
  assumes "message_step e now chat text ev sess w = (r, w')"
    and "\<exists>c. (c, Threw) \<in> set (new_calls w w') \<and> is_repository_call c"
  shows "r = Inr (generic_error (step sess)) \<and> redis w' = redis w \<and> tasks w' = tasks w"
  using assms
  by (auto simp: message_step_def step_description_def step_user_id_def
        step_user_id_for_tasks_def step_time_def prim_defs Let_def new_calls_def list_all_iff
      split: USER_STEPS.splits prod.splits sum.splits option.splits if_splits
      dest!: report_entries_summary)


lemma message_step_grows:
  "message_step e now chat text ev sess w = (r, w') \<Longrightarrow> \<exists>xs. trace w' = trace w @ xs"
  using message_step_policy[of e now chat "text" ev sess w r w'] by (auto simp: adds_def)

text \<open>
  Claim C3, as stated, fails: the session is not cleared. When \<^verbatim>\<open>prisma.task.create\<close>
  throws in the step \<^verbatim>\<open>AWAITING_TIME\<close>, the \<^verbatim>\<open>catch\<close> sets the error reply and leaves the
  \<^verbatim>\<open>switch\<close> before \<^verbatim>\<open>redis.del\<close>; the chat is still at \<^verbatim>\<open>AWAITING_TIME\<close> afterwards, with
  the task data it had.
\<close>

theorem create_failure_keeps_session:
  "new_calls (world_in_step AWAITING_TIME draft_assigned)
     (snd (handleMessage env_second_fails 5000 ''al@x'' ''30'' from_al
             (world_in_step AWAITING_TIME draft_assigned)))
    = [(RedisGet ''al@x'', Returned),
       (TaskCreate \<lparr>new_userToId = Some ''bob@x'', new_chatId = ''al@x'',
                    new_firstName = Some ''Al'', new_lastName = Some ''A'',
                    new_text = Some ''Fix bug'', new_fileId = None, new_fileCaption = None,
                    new_status = ''PENDING'', new_remindInterval = 30,
                    new_lastRemind = 5000\<rparr>, Threw),
       (SendText ''al@x'' R_TaskCreateError [], Returned)]
   \<and> redis (snd (handleMessage env_second_fails 5000 ''al@x'' ''30'' from_al
                  (world_in_step AWAITING_TIME draft_assigned))) ''al@x''
       = Some (\<lparr>step = AWAITING_TIME, taskData = draft_assigned\<rparr>, Some 3600000)"
  by code_simp

text \<open>
  Claim C3, amended. When a repository call throws while a message is handled for a
  chat that has a session (the user lookup, a task query, or the creation of the task
  in \<^verbatim>\<open>AWAITING_TIME\<close>), the session store and the task table are left as they were, so
  the chat stays at its step with its task data, and the last call of the handler
  is the step's generic error reply ("try again") to the chat, with no keyboard.
\<close>

theorem persistence_failure_keeps_session:
  assumes "unexpired now (redis w chat) = Some sess"
    and "\<exists>c. (c, Threw) \<in> set (new_calls w (snd (handleMessage e now chat text ev w)))
             \<and> is_repository_call c"
  shows "redis (snd (handleMessage e now chat text ev w)) = redis w
       \<and> tasks (snd (handleMessage e now chat text ev w)) = tasks w
       \<and> (\<exists>out. last (new_calls w (snd (handleMessage e now chat text ev w)))
                   = (SendText chat (generic_error (step sess)) [], out))"
proof -
  let ?w1 = "w\<lparr>trace := trace w @ [(RedisGet chat, Returned)]\<rparr>"
  let ?w' = "snd (handleMessage e now chat text ev w)"
  have nt: "\<not> throws e w"
  proof
    assume "throws e w"
    then have "new_calls w ?w' = [(RedisGet chat, Threw)]"
      by (simp add: handleMessage_def redis_get_def logged_def new_calls_def)
    with assms(2) show False by auto
  qed
  then have g: "redis_get e now chat w = (Inr (Some sess), ?w1)"
    using assms(1) by (simp add: redis_get_def logged_def)
  obtain r w2 where m: "message_step e now chat text ev sess ?w1 = (r, w2)"
    by (cases "message_step e now chat text ev sess ?w1")
  from message_step_grows[OF m] obtain xs where xs: "trace w2 = trace w @ (RedisGet chat, Returned) # xs"
    by auto
  have hm: "new_calls w ?w' =
              (RedisGet chat, Returned) # xs @
              (case r of Inl err \<Rightarrow> []
               | Inr rep \<Rightarrow> [(SendText chat rep [], if throws e w2 then Threw else Returned)])"
    using xs by (auto simp: handleMessage_def g m sendText_def gateway_def logged_def new_calls_def
        split: sum.splits)
  from assms(2) have "\<exists>c. (c, Threw) \<in> set xs \<and> is_repository_call c"
    unfolding hm by (auto split: sum.splits if_splits)
  then have "\<exists>c. (c, Threw) \<in> set (new_calls ?w1 w2) \<and> is_repository_call c"
    using xs by (simp add: new_calls_def)
  from message_step_failure[OF m this]
  have r: "r = Inr (generic_error (step sess))" and rd: "redis w2 = redis w" and tk: "tasks w2 = tasks w"
    by auto
  have w': "redis ?w' = redis w2 \<and> tasks ?w' = tasks w2"
    by (simp add: handleMessage_def g m r sendText_def gateway_def logged_def)
  show ?thesis
    using w' rd tk hm r by simp
qed

text \<open>The instance: the create throws for Al's answer \<^verbatim>\<open>30\<close>.\<close>

theorem persistence_failure_keeps_session_witness:
  "unexpired 5000 (redis (world_in_step AWAITING_TIME draft_assigned) ''al@x'')
     = Some \<lparr>step = AWAITING_TIME, taskData = draft_assigned\<rparr>
   \<and> (\<exists>c. (c, Threw) \<in> set (new_calls (world_in_step AWAITING_TIME draft_assigned)
               (snd (handleMessage env_second_fails 5000 ''al@x'' ''30'' from_al
                       (world_in_step AWAITING_TIME draft_assigned))))
          \<and> is_repository_call c)
   \<and> redis (snd (handleMessage env_second_fails 5000 ''al@x'' ''30'' from_al
                  (world_in_step AWAITING_TIME draft_assigned)))
       = redis (world_in_step AWAITING_TIME draft_assigned)
   \<and> last (new_calls (world_in_step AWAITING_TIME draft_assigned)
             (snd (handleMessage env_second_fails 5000 ''al@x'' ''30'' from_al
                     (world_in_step AWAITING_TIME draft_assigned))))
       = (SendText ''al@x'' R_TaskCreateError [], Returned)"
proof -
  let ?w = "world_in_step AWAITING_TIME draft_assigned"
  let ?s = "\<lparr>step = AWAITING_TIME, taskData = draft_assigned\<rparr>"
  let ?w' = "snd (handleMessage env_second_fails 5000 ''al@x'' ''30'' from_al ?w)"
  have h1: "unexpired 5000 (redis ?w ''al@x'') = Some ?s"
    by (simp add: world_in_step_def unexpired_def)
  have c: "new_calls ?w ?w'
    = [(RedisGet ''al@x'', Returned),
       (TaskCreate \<lparr>new_userToId = Some ''bob@x'', new_chatId = ''al@x'',
                    new_firstName = Some ''Al'', new_lastName = Some ''A'',
                    new_text = Some ''Fix bug'', new_fileId = None, new_fileCaption = None,
                    new_status = ''PENDING'', new_remindInterval = 30,
                    new_lastRemind = 5000\<rparr>, Threw),
       (SendText ''al@x'' R_TaskCreateError [], Returned)]"
    by code_simp
  have h2: "\<exists>c. (c, Threw) \<in> set (new_calls ?w ?w') \<and> is_repository_call c"
    unfolding c by auto
  have l: "last (new_calls ?w ?w') = (SendText ''al@x'' R_TaskCreateError [], Returned)"
    unfolding c by simp
  from persistence_failure_keeps_session[OF h1 h2] h1 h2 l
  show ?thesis by blast
qed

section \<open>The text /start inside a flow\<close>

text \<open>
  Claim C4 does not hold of the code. \<^verbatim>\<open>handleMessage\<close> looks at the command only in the
  \<^verbatim>\<open>else\<close> branch of \<^verbatim>\<open>if (userState)\<close>; with a session the text goes to the branch of
  the current step. Here Al's chat is at \<^verbatim>\<open>AWAITING_DESCRIPTION\<close> and he sends
  \<^verbatim>\<open>/start\<close>: the text is stored as the description, the chat moves on to
  \<^verbatim>\<open>AWAITING_USER_ID\<close>, the reply asks for a contact; no user is upserted and no
  welcome is sent. (The \<^verbatim>\<open>redis.del\<close> at the head of \<^verbatim>\<open>case '/start'\<close> is reached only
  when there is no session to delete.)
\<close>

theorem start_in_flow_is_step_input:
  "unexpired 5000 (redis (world_in_step AWAITING_DESCRIPTION empty_taskData) ''al@x'')
     = Some \<lparr>step = AWAITING_DESCRIPTION, taskData = empty_taskData\<rparr>
   \<and> new_calls (world_in_step AWAITING_DESCRIPTION empty_taskData)
        (snd (handleMessage env_ok 5000 ''al@x'' ''/start'' from_al
                (world_in_step AWAITING_DESCRIPTION empty_taskData)))
       = [(RedisGet ''al@x'', Returned),
          (RedisSet ''al@x''
             \<lparr>step = AWAITING_USER_ID,
              taskData = \<lparr>description = Some ''/start'', td_firstName = Some ''Al'',
                          td_lastName = Some ''A'', td_fileId = None, td_fileCaption = None,
                          userId = None\<rparr>\<rparr>
             (Some 3600), Returned),
          (SendText ''al@x'' R_AskAssignee [], Returned)]
   \<and> map_option (step \<circ> fst)
        (redis (snd (handleMessage env_ok 5000 ''al@x'' ''/start'' from_al
                       (world_in_step AWAITING_DESCRIPTION empty_taskData))) ''al@x'')
       = Some AWAITING_USER_ID"
  by code_simp

section \<open>The sweep moves the next reminder\<close>

lemma reminder_keyboard_inj [simp]: "(reminder_keyboard i = reminder_keyboard j) = (i = j)"
  by (auto simp: reminder_keyboard_def)

lemma reminder_not_welcome [simp]: "reminder_keyboard i \<noteq> welcome_keyboard"
  by (simp add: welcome_keyboard_def reminder_keyboard_def)

lemma reminder_not_empty [simp]: "reminder_keyboard i \<noteq> []" "[] \<noteq> reminder_keyboard i"
  by (simp_all add: reminder_keyboard_def)













lemma lookup_task_in: "lookup_task i rows = Some t \<Longrightarrow> t \<in> set rows \<and> task_id t = i"
  by (induction rows) (auto simp: lookup_task_def split: if_splits)




lemma appended_refl [simp]: "appended rows rows"
  by (simp add: appended_def)


















end
